theory Spec2Isabelle
  imports Main "HOL-Library.Sublist"
begin

section \<open>Daily news digest: the feed pipeline and the renderer\<close>

text \<open>
  The development embeds \<^verbatim>\<open>scrapers.py\<close>, \<^verbatim>\<open>email_sender.py\<close> and \<^verbatim>\<open>main.py\<close>.
  A Python \<^verbatim>\<open>str\<close> is a \<open>string\<close>, one \<open>char\<close> for each code point (the code points
  up to 255; the section name of La Presse in the source fits). A \<^verbatim>\<open>dict\<close> is an
  association list in insertion order, read with \<open>map_of\<close> and written with \<open>dict_set\<close>.
  Logging has no effect on any result and is left out. The external collaborators
  (feedparser, BeautifulSoup, \<^verbatim>\<open>email.utils\<close>, \<^verbatim>\<open>strftime\<close>, the clock, the process
  environment and SMTP) are the fields of the record \<open>world\<close>.
\<close>

subsection \<open>Python strings and slices\<close>

definition is_space :: "char \<Rightarrow> bool" where
  \<comment> \<open>\<^verbatim>\<open>str.isspace\<close> on the code points up to 255\<close>
  "is_space c =
     (let n = (of_char c :: nat)
      in (9 \<le> n \<and> n \<le> 13) \<or> (28 \<le> n \<and> n \<le> 32) \<or> n = 133 \<or> n = 160)"

definition strip :: "string \<Rightarrow> string" where
  \<comment> \<open>\<^verbatim>\<open>s.strip()\<close>\<close>
  "strip s = rev (dropWhile is_space (rev (dropWhile is_space s)))"

fun split_acc :: "string \<Rightarrow> string \<Rightarrow> string list" where
  "split_acc cur [] = (if cur = [] then [] else [cur])"
| "split_acc cur (c # cs) =
     (if is_space c then (if cur = [] then split_acc [] cs else cur # split_acc [] cs)
      else split_acc (cur @ [c]) cs)"

definition split_ws :: "string \<Rightarrow> string list" where
  \<comment> \<open>\<^verbatim>\<open>s.split()\<close>: the maximal runs of non-whitespace\<close>
  "split_ws s = split_acc [] s"

fun join :: "string \<Rightarrow> string list \<Rightarrow> string" where
  \<comment> \<open>\<^verbatim>\<open>sep.join(xs)\<close>\<close>
  "join sep [] = []"
| "join sep [x] = x"
| "join sep (x # y # ys) = x @ sep @ join sep (y # ys)"

definition slice_upto :: "'a list \<Rightarrow> int \<Rightarrow> 'a list" where
  \<comment> \<open>\<^verbatim>\<open>xs[:n]\<close>; a negative \<open>n\<close> counts from the end\<close>
  "slice_upto xs n = (if 0 \<le> n then take (nat n) xs else take (length xs - nat (- n)) xs)"

definition rsplit1_first :: "string \<Rightarrow> string" where
  \<comment> \<open>\<^verbatim>\<open>s.rsplit(' ', 1)[0]\<close>: the part before the last space, or all of \<open>s\<close>\<close>
  "rsplit1_first s =
     (if CHR '' '' \<in> set s then rev (tl (dropWhile (\<lambda>c. c \<noteq> CHR '' '') (rev s))) else s)"

definition dict_set :: "'k \<Rightarrow> 'v \<Rightarrow> ('k \<times> 'v) list \<Rightarrow> ('k \<times> 'v) list" where
  \<comment> \<open>\<^verbatim>\<open>d[k] = v\<close>: a present key keeps its place, a new key goes last\<close>
  "dict_set k v d =
     (if k \<in> fst ` set d then map (\<lambda>(k', v'). if k' = k then (k', v) else (k', v')) d
      else d @ [(k, v)])"

subsection \<open>Data model\<close>

datatype exn = ValueError | SMTPAuthenticationError | Exception string

definition try_except :: "exn + 'a \<Rightarrow> (exn \<Rightarrow> exn + 'a) \<Rightarrow> exn + 'a" where
  "try_except body handler = (case body of Inl e \<Rightarrow> handler e | Inr v \<Rightarrow> Inr v)"

record struct_time =
  tm_year :: int
  tm_mon :: int
  tm_mday :: int
  tm_hour :: int
  tm_min :: int
  tm_sec :: int

record entry =
  entry_title :: "string option"
  entry_link :: "string option"
  entry_summary :: "string option"
  entry_description :: "string option"
  published_parsed :: "struct_time option"
  updated_parsed :: "struct_time option"
  published :: "string option"

record feed =
  bozo :: bool
  entries :: "entry list"

record headline =
  title :: string
  url :: string
  summary :: string

type_synonym sections = "(string \<times> headline list) list"
type_synonym digest = "(string \<times> sections) list"

record message =
  msg_subject :: string
  msg_from :: string
  msg_to :: string
  msg_text :: string
  msg_html :: string

record world =
  feedparser_parse :: "string \<Rightarrow> exn + feed"
  soup_get_text :: "string \<Rightarrow> string"
  parsedate_tz :: "string \<Rightarrow> struct_time option"
  strftime :: "string \<Rightarrow> int \<Rightarrow> string"
  substacks_now :: int
  podcasts_now :: int
  body_date_str :: string
  subject_date_str :: string
  env_gmail_user :: "string option"
  env_gmail_password :: "string option"
  env_recipient_email :: "string option"
  smtp_send :: "message \<Rightarrow> exn + unit"

definition get_or_empty :: "string option \<Rightarrow> string" where
  \<comment> \<open>\<^verbatim>\<open>d.get(key, '')\<close>\<close>
  "get_or_empty v = (case v of None \<Rightarrow> [] | Some s \<Rightarrow> s)"

subsection \<open>\<^verbatim>\<open>scrapers.py\<close>: normalising one entry\<close>

definition max_headlines :: int where
  "max_headlines = 6"

definition clean_html :: "world \<Rightarrow> string \<Rightarrow> string" where
  \<comment> \<open>\<^verbatim>\<open>_clean_html\<close>\<close>
  "clean_html w text =
     (if text = [] then []
      else let clean = soup_get_text w text;
               clean = join '' '' (split_ws clean)
           in strip clean)"

definition truncate_text :: "string \<Rightarrow> int \<Rightarrow> string" where
  \<comment> \<open>\<^verbatim>\<open>_truncate\<close>; the record package owns the name \<open>truncate\<close>\<close>
  "truncate_text text len =
     (if text = [] \<or> int (length text) \<le> len then text
      else rsplit1_first (slice_upto text len) @ ''...'')"

definition parse_feed :: "world \<Rightarrow> string \<Rightarrow> int \<Rightarrow> exn + entry list" where
  \<comment> \<open>\<^verbatim>\<open>_parse_feed\<close>; \<open>Inl\<close> would be an exception that reaches the caller\<close>
  "parse_feed w u max_items =
     try_except
       (case feedparser_parse w u of
          Inl e \<Rightarrow> Inl e
        | Inr fd \<Rightarrow>
            if bozo fd \<and> entries fd = [] then Inr []
            else Inr (slice_upto (entries fd) max_items))
       (\<lambda>e. Inr [])"

definition summary_or_description :: "entry \<Rightarrow> string" where
  \<comment> \<open>\<^verbatim>\<open>entry.get('summary', '') or entry.get('description', '')\<close>\<close>
  "summary_or_description e =
     (if get_or_empty (entry_summary e) \<noteq> [] then get_or_empty (entry_summary e)
      else get_or_empty (entry_description e))"

definition entry_to_headline :: "world \<Rightarrow> entry \<Rightarrow> bool \<Rightarrow> headline option" where
  \<comment> \<open>\<^verbatim>\<open>_entry_to_headline\<close>\<close>
  "entry_to_headline w e include_summary =
     (let title0 = strip (get_or_empty (entry_title e));
          link = strip (get_or_empty (entry_link e))
      in if title0 = [] then None
         else let hl = \<lparr>title = clean_html w title0, url = link, summary = []\<rparr>
              in if include_summary
                 then let s = summary_or_description e
                      in if s \<noteq> [] then Some (hl\<lparr>summary := truncate_text (clean_html w s) 200\<rparr>)
                         else Some hl
                 else Some hl)"

fun strip_tags :: "bool \<Rightarrow> string \<Rightarrow> string" where
  \<comment> \<open>a stand-in for \<^verbatim>\<open>BeautifulSoup(text, 'html.parser').get_text()\<close> on text with
      plain tags: what lies between \<open><\<close> and \<open>>\<close> is dropped\<close>
  "strip_tags in_tag [] = []"
| "strip_tags in_tag (c # cs) =
     (if in_tag then (if c = CHR ''>'' then strip_tags False cs else strip_tags True cs)
      else if c = CHR ''<'' then strip_tags True cs
      else c # strip_tags False cs)"

subsection \<open>\<^verbatim>\<open>scrapers.py\<close>: the fetchers of the press sources\<close>

definition collect_headlines :: "world \<Rightarrow> entry list \<Rightarrow> headline list" where
  \<comment> \<open>the loop \<^verbatim>\<open>for entry in entries\<close> that appends every headline produced\<close>
  "collect_headlines w es =
     fold (\<lambda>e hs. case entry_to_headline w e True of None \<Rightarrow> hs | Some h \<Rightarrow> hs @ [h]) es []"

definition fetch_section ::
  "world \<Rightarrow> int \<Rightarrow> string \<times> string \<Rightarrow> sections \<Rightarrow> sections" where
  \<comment> \<open>one round of \<^verbatim>\<open>for section, url in feeds.items()\<close>, with its \<^verbatim>\<open>try\<close>\<close>
  "fetch_section w max_items = (\<lambda>(section, u) all_headlines.
     case parse_feed w u max_items of
       Inl e \<Rightarrow> all_headlines
     | Inr es \<Rightarrow>
         let headlines = collect_headlines w es
         in if headlines \<noteq> [] then dict_set section headlines all_headlines
            else all_headlines)"

definition nytimes_feeds :: "(string \<times> string) list" where
  "nytimes_feeds =
     [(''Top Stories'', ''https://rss.nytimes.com/services/xml/rss/nyt/HomePage.xml''),
      (''World'', ''https://rss.nytimes.com/services/xml/rss/nyt/World.xml''),
      (''Opinion'', ''https://rss.nytimes.com/services/xml/rss/nyt/Opinion.xml'')]"

definition globe_feeds :: "(string \<times> string) list" where
  "globe_feeds =
     [(''Canada'', ''https://www.theglobeandmail.com/arc/outboundfeeds/rss/category/canada/''),
      (''Politics'', ''https://www.theglobeandmail.com/arc/outboundfeeds/rss/category/politics/''),
      (''Opinion'', ''https://www.theglobeandmail.com/arc/outboundfeeds/rss/category/opinion/'')]"

definition lapresse_feeds :: "(string \<times> string) list" where
  "lapresse_feeds =
     [(''Actualit'' @ [char_of (195 :: nat), char_of (169 :: nat)] @ ''s'',
         ''https://www.lapresse.ca/actualites/rss''),
      (''International'', ''https://www.lapresse.ca/international/rss''),
      (''Affaires'', ''https://www.lapresse.ca/affaires/rss'')]"

definition fetch_nytimes :: "world \<Rightarrow> sections" where
  "fetch_nytimes w = fold (fetch_section w max_headlines) nytimes_feeds []"

definition fetch_globe_and_mail :: "world \<Rightarrow> sections" where
  "fetch_globe_and_mail w = fold (fetch_section w 4) globe_feeds []"

definition fetch_lapresse :: "world \<Rightarrow> sections" where
  "fetch_lapresse w = fold (fetch_section w max_headlines) lapresse_feeds []"

definition fetch_axios :: "world \<Rightarrow> headline list" where
  "fetch_axios w =
     (case parse_feed w ''https://api.axios.com/feed/'' max_headlines of
        Inl e \<Rightarrow> []
      | Inr es \<Rightarrow> collect_headlines w es)"

subsection \<open>\<^verbatim>\<open>scrapers.py\<close>: dates and the recency-filtered fetchers\<close>

text \<open>
  A naive \<^verbatim>\<open>datetime\<close> is the number of microseconds since 0001-01-01 00:00:00: Python
  orders naive datetimes by their fields from the year down, which is the order of these
  numbers. \<open>datetime\<close> is the constructor \<^verbatim>\<open>datetime(*t[:6])\<close>, which raises
  \<^verbatim>\<open>ValueError\<close> on a field out of range. The clock readings \<open>substacks_now\<close> and
  \<open>podcasts_now\<close> are those of \<^verbatim>\<open>datetime.now()\<close> in the two fetchers.
\<close>

definition is_leap :: "int \<Rightarrow> bool" where
  "is_leap y = (y mod 4 = 0 \<and> (y mod 100 \<noteq> 0 \<or> y mod 400 = 0))"

definition days_in_month :: "int \<Rightarrow> int \<Rightarrow> int" where
  "days_in_month y m =
     (if m = 2 then (if is_leap y then 29 else 28)
      else if m = 4 \<or> m = 6 \<or> m = 9 \<or> m = 11 then 30 else 31)"

definition days_before_year :: "int \<Rightarrow> int" where
  "days_before_year y = (let y1 = y - 1 in y1 * 365 + y1 div 4 - y1 div 100 + y1 div 400)"

definition days_before_month :: "int \<Rightarrow> int \<Rightarrow> int" where
  "days_before_month y m = sum_list (map (\<lambda>k. days_in_month y (int k)) [1 ..< nat m])"

definition datetime :: "struct_time \<Rightarrow> exn + int" where
  "datetime t =
     (if 1 \<le> tm_year t \<and> tm_year t \<le> 9999 \<and> 1 \<le> tm_mon t \<and> tm_mon t \<le> 12
         \<and> 1 \<le> tm_mday t \<and> tm_mday t \<le> days_in_month (tm_year t) (tm_mon t)
         \<and> 0 \<le> tm_hour t \<and> tm_hour t \<le> 23 \<and> 0 \<le> tm_min t \<and> tm_min t \<le> 59
         \<and> 0 \<le> tm_sec t \<and> tm_sec t \<le> 59
      then Inr (((((days_before_year (tm_year t) + days_before_month (tm_year t) (tm_mon t)
                     + tm_mday t - 1) * 24 + tm_hour t) * 60 + tm_min t) * 60 + tm_sec t)
                 * 1000000)
      else Inl ValueError)"

definition timedelta_hours :: "int \<Rightarrow> int" where
  \<comment> \<open>\<^verbatim>\<open>timedelta(hours=h)\<close> in microseconds\<close>
  "timedelta_hours h = h * 3600 * 1000000"

definition to_datetime :: "struct_time \<Rightarrow> int option" where
  \<comment> \<open>the datetime of a time tuple, if the constructor accepts it\<close>
  "to_datetime t = (case datetime t of Inl x \<Rightarrow> None | Inr d \<Rightarrow> Some d)"

definition parse_date :: "world \<Rightarrow> entry \<Rightarrow> int option" where
  \<comment> \<open>\<^verbatim>\<open>_parse_date\<close>: an exception in the body ends in \<^verbatim>\<open>return None\<close>\<close>
  "parse_date w e =
     (case try_except
             (case published_parsed e of
                Some p \<Rightarrow> (case datetime p of Inl x \<Rightarrow> Inl x | Inr d \<Rightarrow> Inr (Some d))
              | None \<Rightarrow>
                 (case updated_parsed e of
                    Some u \<Rightarrow> (case datetime u of Inl x \<Rightarrow> Inl x | Inr d \<Rightarrow> Inr (Some d))
                  | None \<Rightarrow>
                     (if get_or_empty (published e) \<noteq> []
                      then (case parsedate_tz w (get_or_empty (published e)) of
                              Some p \<Rightarrow>
                                (case datetime p of Inl x \<Rightarrow> Inl x | Inr d \<Rightarrow> Inr (Some d))
                            | None \<Rightarrow> Inr None)
                      else Inr None)))
             (\<lambda>x. Inr None)
      of Inl x \<Rightarrow> None | Inr r \<Rightarrow> r)"

definition substack_entry :: "world \<Rightarrow> string \<Rightarrow> int \<Rightarrow> entry \<Rightarrow> headline option" where
  \<comment> \<open>the body of \<^verbatim>\<open>for entry in feed.entries\<close> in \<^verbatim>\<open>fetch_substacks\<close>: the post appended,
      if any\<close>
  "substack_entry w username cutoff e =
     (case parse_date w e of
        None \<Rightarrow> None
      | Some pub_date \<Rightarrow>
          if pub_date > cutoff
          then let title0 = strip (get_or_empty (entry_title e));
                   link = strip (get_or_empty (entry_link e))
               in if title0 \<noteq> []
                  then Some \<lparr>title = ''@'' @ username @ '': '' @ title0, url = link,
                             summary = ''Posted '' @ strftime w ''%b %d at %H:%M'' pub_date\<rparr>
                  else None
          else None)"

definition podcast_entry :: "world \<Rightarrow> string \<Rightarrow> int \<Rightarrow> entry \<Rightarrow> headline option" where
  \<comment> \<open>the body of \<^verbatim>\<open>for entry in feed.entries\<close> in \<^verbatim>\<open>fetch_podcasts\<close>\<close>
  "podcast_entry w podcast_name cutoff e =
     (case parse_date w e of
        None \<Rightarrow> None
      | Some pub_date \<Rightarrow>
          if pub_date > cutoff
          then let title0 = strip (get_or_empty (entry_title e));
                   link = strip (get_or_empty (entry_link e))
               in if title0 \<noteq> []
                  then Some \<lparr>title = podcast_name @ '': '' @ title0, url = link,
                             summary = ''Published '' @ strftime w ''%b %d'' pub_date\<rparr>
                  else None
          else None)"

definition append_kept :: "(entry \<Rightarrow> headline option) \<Rightarrow> entry list \<Rightarrow> headline list \<Rightarrow> headline list" where
  \<comment> \<open>the inner loop: every kept entry is appended to the result so far\<close>
  "append_kept f es acc = fold (\<lambda>e r. case f e of None \<Rightarrow> r | Some h \<Rightarrow> r @ [h]) es acc"

definition fetch_substacks :: "world \<Rightarrow> string list \<Rightarrow> int \<Rightarrow> headline list" where
  "fetch_substacks w usernames hours =
     (let cutoff = substacks_now w - timedelta_hours hours
      in fold (\<lambda>username recent_posts.
                 case feedparser_parse w (''https://'' @ username @ ''.substack.com/feed'') of
                   Inl x \<Rightarrow> recent_posts
                 | Inr fd \<Rightarrow>
                     if entries fd = [] then recent_posts
                     else append_kept (substack_entry w username cutoff) (entries fd) recent_posts)
              usernames [])"

definition fetch_podcasts :: "world \<Rightarrow> (string \<times> string) list \<Rightarrow> int \<Rightarrow> headline list" where
  "fetch_podcasts w feeds hours =
     (let cutoff = podcasts_now w - timedelta_hours hours
      in fold (\<lambda>(podcast_name, feed_url) recent_episodes.
                 case feedparser_parse w feed_url of
                   Inl x \<Rightarrow> recent_episodes
                 | Inr fd \<Rightarrow>
                     if entries fd = [] then recent_episodes
                     else append_kept (podcast_entry w podcast_name cutoff) (entries fd)
                            recent_episodes)
              feeds [])"

subsection \<open>\<^verbatim>\<open>email_sender.py\<close>: the renderer\<close>

text \<open>
  \<^verbatim>\<open>format_email_body\<close> appends to two lists, \<^verbatim>\<open>text_lines\<close> and \<^verbatim>\<open>html_parts\<close>, in one
  pass; the pair of them is the state \<open>out\<close> that every loop body takes and returns.
  \<open>format_lines\<close> is the function up to its last line and \<open>format_email_body\<close> joins
  the two lists with newlines. The date string is what \<^verbatim>\<open>strftime\<close> made of the clock
  reading, \<open>body_date_str\<close>.
\<close>

type_synonym out = "string list \<times> string list"

definition text_append :: "string \<Rightarrow> out \<Rightarrow> out" where
  "text_append l = (\<lambda>(text_lines, html_parts). (text_lines @ [l], html_parts))"

definition html_append :: "string \<Rightarrow> out \<Rightarrow> out" where
  "html_append l = (\<lambda>(text_lines, html_parts). (text_lines, html_parts @ [l]))"

definition source_order :: "string list" where
  "source_order =
     [''NEW YORK TIMES'', ''LA PRESSE'', ''GLOBE AND MAIL'', ''AXIOS'', ''SUBSTACK'', ''PODCASTS'']"

definition always_show :: "string list" where
  "always_show = [''SUBSTACK'', ''PODCASTS'']"

definition html_open :: string where
  "html_open = ''<html><body style=\"font-family: Georgia, serif; max-width: 600px; margin: 0 auto; padding: 20px;\">''"

definition h1_line :: string where
  "h1_line = ''<h1 style=\"color: #333; border-bottom: 2px solid #333; padding-bottom: 10px;\">Daily News Digest</h1>''"

definition date_line :: "string \<Rightarrow> string" where
  "date_line date_str = ''<p style=\"color: #666; margin-bottom: 30px;\">'' @ date_str @ ''</p>''"

definition h2_open :: string where
  "h2_open = ''<h2 style=\"color: #1a1a1a; margin-top: 30px; font-size: 18px; text-transform: uppercase; letter-spacing: 1px;\">''"

definition h2_line :: "string \<Rightarrow> string" where
  "h2_line source = h2_open @ source @ ''</h2>''"

definition empty_line :: "string \<Rightarrow> string" where
  "empty_line msg = ''<p style=\"color: #888; font-style: italic; margin-left: 15px;\">'' @ msg @ ''</p>''"

definition h3_open :: string where
  "h3_open = ''<h3 style=\"color: #555; font-size: 14px; margin: 15px 0 10px 0;\">''"

definition h3_line :: "string \<Rightarrow> string" where
  "h3_line section_name = h3_open @ section_name @ ''</h3>''"

definition ul_open :: string where
  "ul_open = ''<ul style=\"list-style: none; padding: 0; margin: 0;\">''"

definition li_open :: string where
  "li_open = ''<li style=\"margin-bottom: 15px; padding-left: 15px; border-left: 3px solid #ddd;\">''"

definition a_line :: "string \<Rightarrow> string \<Rightarrow> string" where
  "a_line u t = ''<a href=\"'' @ u @ ''\" style=\"color: #0066cc; text-decoration: none; font-weight: bold;\">'' @ t @ ''</a>''"

definition strong_line :: "string \<Rightarrow> string" where
  "strong_line t = ''<strong>'' @ t @ ''</strong>''"

definition span_line :: "string \<Rightarrow> string" where
  "span_line s = ''<br><span style=\"color: #666; font-size: 14px;\">'' @ s @ ''</span>''"

definition hr_line :: string where
  "hr_line = ''<hr style=\"margin-top: 40px; border: none; border-top: 1px solid #ddd;\">''"

definition footer_line :: string where
  "footer_line = ''<p style=\"color: #999; font-size: 12px; text-align: center;\">Delivered by Daily News Digest</p>''"

definition no_posts_msg :: string where
  "no_posts_msg = ''No new posts in the last 24 hours''"

definition no_episodes_msg :: string where
  "no_episodes_msg = ''No new episodes in the last 48 hours''"

definition bullet_line :: "string \<Rightarrow> string" where
  "bullet_line t = ''  - '' @ t"

definition indent_line :: "string \<Rightarrow> string" where
  "indent_line s = ''    '' @ s"

definition header_line :: "string \<Rightarrow> string" where
  \<comment> \<open>\<^verbatim>\<open>f"\n{source}"\<close>\<close>
  "header_line source = CHR 0x0A # source"

definition section_line :: "string \<Rightarrow> string" where
  \<comment> \<open>\<^verbatim>\<open>f"\n  {section_name}:"\<close>\<close>
  "section_line section_name = CHR 0x0A # ''  '' @ section_name @ '':''"

definition render_headline :: "headline \<Rightarrow> out \<Rightarrow> out" where
  "render_headline hl out =
     (if title hl = [] then out
      else let out = (if url hl \<noteq> []
                      then text_append (indent_line (url hl)) (text_append (bullet_line (title hl)) out)
                      else text_append (bullet_line (title hl)) out);
               out = (if summary hl \<noteq> [] then text_append (indent_line (summary hl)) out else out);
               out = html_append li_open out;
               out = (if url hl \<noteq> [] then html_append (a_line (url hl) (title hl)) out
                      else html_append (strong_line (title hl)) out);
               out = (if summary hl \<noteq> [] then html_append (span_line (summary hl)) out else out)
           in html_append ''</li>'' out)"

definition render_section :: "nat \<Rightarrow> string \<times> headline list \<Rightarrow> out \<Rightarrow> out" where
  \<comment> \<open>the body of \<^verbatim>\<open>for section_name, headlines in sections.items()\<close>; \<open>n\<close> is
      \<^verbatim>\<open>len(sections)\<close>\<close>
  "render_section n = (\<lambda>(section_name, headlines) out.
     if headlines = [] then out
     else let out = (if n > 1
                     then html_append (h3_line section_name)
                            (text_append (section_line section_name) out)
                     else out);
              out = html_append ul_open out;
              out = fold render_headline headlines out
          in html_append ''</ul>'' out)"

definition has_content :: "sections \<Rightarrow> bool" where
  \<comment> \<open>\<^verbatim>\<open>any(headlines for headlines in sections.values() if headlines)\<close>\<close>
  "has_content secs = list_ex (\<lambda>hs. hs \<noteq> []) (filter (\<lambda>hs. hs \<noteq> []) (map snd secs))"

definition render_source :: "digest \<Rightarrow> string \<Rightarrow> out \<Rightarrow> out" where
  \<comment> \<open>the body of \<^verbatim>\<open>for source in source_order\<close>\<close>
  "render_source all_headlines source out =
     (case map_of all_headlines source of
        None \<Rightarrow> out
      | Some secs \<Rightarrow>
          if \<not> has_content secs \<and> source \<notin> set always_show then out
          else let out = text_append (header_line source) out;
                   out = text_append (replicate (length source) (CHR ''-'')) out;
                   out = html_append (h2_line source) out
               in if \<not> has_content secs
                  then let msg = (if source = ''SUBSTACK'' then no_posts_msg else no_episodes_msg);
                           out = text_append (''  '' @ msg) out
                       in html_append (empty_line msg) out
                  else text_append [] (fold (render_section (length secs)) secs out))"

definition format_lines :: "string \<Rightarrow> digest \<Rightarrow> out" where
  "format_lines date_str all_headlines =
     (let out = ([], [html_open]);
          out = html_append h1_line out;
          out = html_append (date_line date_str) out;
          out = text_append (''DAILY NEWS DIGEST - '' @ date_str) out;
          out = text_append (replicate 50 (CHR ''='')) out;
          out = text_append [] out;
          out = fold (render_source all_headlines) source_order out;
          out = text_append (CHR 0x0A # replicate 50 (CHR ''='')) out;
          out = text_append ''Delivered by Daily News Digest'' out;
          out = html_append hr_line out;
          out = html_append footer_line out
      in html_append ''</body></html>'' out)"

definition format_email_body :: "world \<Rightarrow> digest \<Rightarrow> string \<times> string" where
  "format_email_body w all_headlines =
     (let (text_lines, html_parts) = format_lines (body_date_str w) all_headlines
      in (join [CHR 0x0A] text_lines, join [CHR 0x0A] html_parts))"

subsection \<open>\<^verbatim>\<open>email_sender.py\<close>: delivery\<close>

record email_sender =
  gmail_user :: string
  gmail_password :: string
  recipient_email :: string

definition EmailSender :: "world \<Rightarrow> exn + email_sender" where
  \<comment> \<open>\<^verbatim>\<open>EmailSender.__init__\<close>\<close>
  "EmailSender w =
     (let u = get_or_empty (env_gmail_user w);
          p = get_or_empty (env_gmail_password w);
          r = (case env_recipient_email w of None \<Rightarrow> u | Some r \<Rightarrow> r)
      in if u = [] \<or> p = [] then Inl ValueError
         else Inr \<lparr>gmail_user = u, gmail_password = p, recipient_email = r\<rparr>)"

definition get_subject :: "world \<Rightarrow> string" where
  "get_subject w = ''Daily News Digest - '' @ subject_date_str w"

definition send_daily_digest :: "world \<Rightarrow> email_sender \<Rightarrow> digest \<Rightarrow> bool \<times> message list" where
  \<comment> \<open>the result, and the messages handed to SMTP (none when no delivery is attempted)\<close>
  "send_daily_digest w self all_headlines =
     (if all_headlines = [] then (False, [])
      else let subject = get_subject w;
               (text_body, html_body) = format_email_body w all_headlines;
               msg = \<lparr>msg_subject = subject, msg_from = gmail_user self,
                      msg_to = recipient_email self, msg_text = text_body, msg_html = html_body\<rparr>
           in case smtp_send w msg of
                Inl e \<Rightarrow> (False, [msg])
              | Inr u \<Rightarrow> (True, [msg]))"

subsection \<open>\<^verbatim>\<open>main.py\<close>\<close>

definition substack_accounts :: "string list" where
  "substack_accounts =
     [''everydayai'', ''understandingai'', ''aisnakeoil'', ''darioamodei'', ''sineadbovell'']"

definition podcast_feeds :: "(string \<times> string) list" where
  "podcast_feeds =
     [(''The Cognitive Revolution'', ''https://feeds.megaphone.fm/RINTP3108857801''),
      (''Ezra Klein Show'', ''https://feeds.simplecast.com/82FI35Px'')]"

definition aggregate :: "world \<Rightarrow> digest" where
  \<comment> \<open>\<^verbatim>\<open>main\<close> from \<^verbatim>\<open>all_headlines = {}\<close> to the last fetch\<close>
  "aggregate w =
     (let all_headlines = [];
          nyt_headlines = fetch_nytimes w;
          all_headlines = (if nyt_headlines \<noteq> []
                           then dict_set ''NEW YORK TIMES'' nyt_headlines all_headlines
                           else all_headlines);
          globe_headlines = fetch_globe_and_mail w;
          all_headlines = (if globe_headlines \<noteq> []
                           then dict_set ''GLOBE AND MAIL'' globe_headlines all_headlines
                           else all_headlines);
          lapresse_headlines = fetch_lapresse w;
          all_headlines = (if lapresse_headlines \<noteq> []
                           then dict_set ''LA PRESSE'' lapresse_headlines all_headlines
                           else all_headlines);
          axios_headlines = fetch_axios w;
          all_headlines = (if axios_headlines \<noteq> []
                           then dict_set ''AXIOS'' [(''Top Stories'', axios_headlines)] all_headlines
                           else all_headlines);
          substack_posts = fetch_substacks w substack_accounts 24;
          all_headlines = dict_set ''SUBSTACK''
                            [(''AI Writers'', if substack_posts \<noteq> [] then substack_posts else [])]
                            all_headlines;
          podcast_episodes = fetch_podcasts w podcast_feeds 48
      in dict_set ''PODCASTS''
           [(''New Episodes'', if podcast_episodes \<noteq> [] then podcast_episodes else [])]
           all_headlines)"

definition main :: "world \<Rightarrow> int \<times> message list" where
  \<comment> \<open>the exit status, and the messages handed to SMTP during the run\<close>
  "main w =
     (case EmailSender w of
        Inl e \<Rightarrow> (1, [])
      | Inr email_sender \<Rightarrow>
          let all_headlines = aggregate w
          in if all_headlines = [] then (1, [])
             else let (success, sent) = send_daily_digest w email_sender all_headlines
                  in if success then (0, sent) else (1, sent))"

subsection \<open>The traversal that both renderings follow\<close>

text \<open>
  The specification describes the renderer as one traversal of the digest with two
  renderings. \<open>traversal\<close> follows those words: it lists what the renderer visits, and
  \<open>event_text\<close> and \<open>event_html\<close> say what each visit adds to either output. They are
  compared below with \<open>format_lines\<close>, which is the code.
\<close>

datatype event =
  SourceHeader string
  | EmptyState string
  | SectionHeader string
  | ListOpen
  | Item headline
  | ListClose
  | SourceEnd

definition empty_state_msg :: "string \<Rightarrow> string" where
  \<comment> \<open>the fixed sentence of an always-shown source with nothing to show\<close>
  "empty_state_msg s = (if s = ''SUBSTACK'' then no_posts_msg else no_episodes_msg)"

definition headline_events :: "headline \<Rightarrow> event list" where
  "headline_events hl = (if title hl = [] then [] else [Item hl])"

definition section_events :: "nat \<Rightarrow> string \<times> headline list \<Rightarrow> event list" where
  "section_events n = (\<lambda>(section_name, headlines).
     if headlines = [] then []
     else (if n > 1 then [SectionHeader section_name] else [])
          @ [ListOpen] @ concat (map headline_events headlines) @ [ListClose])"

definition shown :: "digest \<Rightarrow> string \<Rightarrow> bool" where
  \<comment> \<open>the source is in the digest and has content or is one of the two always shown\<close>
  "shown d s =
     (case map_of d s of
        None \<Rightarrow> False
      | Some secs \<Rightarrow> has_content secs \<or> s \<in> set always_show)"

definition source_events :: "digest \<Rightarrow> string \<Rightarrow> event list" where
  "source_events d s =
     (case map_of d s of
        None \<Rightarrow> []
      | Some secs \<Rightarrow>
          if \<not> shown d s then []
          else if \<not> has_content secs
          then [SourceHeader s, EmptyState s]
          else [SourceHeader s] @ concat (map (section_events (length secs)) secs) @ [SourceEnd])"

definition traversal :: "digest \<Rightarrow> event list" where
  "traversal d = concat (map (source_events d) source_order)"

fun event_text :: "event \<Rightarrow> string list" where
  "event_text (SourceHeader s) = [header_line s, replicate (length s) (CHR ''-'')]"
| "event_text (EmptyState s) = [''  '' @ empty_state_msg s]"
| "event_text (SectionHeader n) = [section_line n]"
| "event_text ListOpen = []"
| "event_text (Item hl) =
     [bullet_line (title hl)]
     @ (if url hl \<noteq> [] then [indent_line (url hl)] else [])
     @ (if summary hl \<noteq> [] then [indent_line (summary hl)] else [])"
| "event_text ListClose = []"
| "event_text SourceEnd = [[]]"

fun event_html :: "event \<Rightarrow> string list" where
  "event_html (SourceHeader s) = [h2_line s]"
| "event_html (EmptyState s) = [empty_line (empty_state_msg s)]"
| "event_html (SectionHeader n) = [h3_line n]"
| "event_html ListOpen = [ul_open]"
| "event_html (Item hl) =
     [li_open, (if url hl \<noteq> [] then a_line (url hl) (title hl) else strong_line (title hl))]
     @ (if summary hl \<noteq> [] then [span_line (summary hl)] else [])
     @ [''</li>'']"
| "event_html ListClose = [''</ul>'']"
| "event_html SourceEnd = []"


fun event_source :: "event \<Rightarrow> string list" where
  "event_source (SourceHeader s) = [s]"
| "event_source e = []"

fun event_section :: "event \<Rightarrow> string list" where
  "event_section (SectionHeader n) = [n]"
| "event_section e = []"

fun event_headline :: "event \<Rightarrow> headline list" where
  "event_headline (Item hl) = [hl]"
| "event_headline e = []"

definition sources_of :: "event list \<Rightarrow> string list" where
  "sources_of evs = concat (map event_source evs)"

definition sections_of :: "event list \<Rightarrow> string list" where
  "sections_of evs = concat (map event_section evs)"

definition headlines_of :: "event list \<Rightarrow> headline list" where
  "headlines_of evs = concat (map event_headline evs)"

definition events_text :: "event list \<Rightarrow> string list" where
  "events_text evs = concat (map event_text evs)"

definition events_html :: "event list \<Rightarrow> string list" where
  "events_html evs = concat (map event_html evs)"

definition text_head :: "string \<Rightarrow> string list" where
  "text_head date_str = [''DAILY NEWS DIGEST - '' @ date_str, replicate 50 (CHR ''=''), []]"

definition text_foot :: "string list" where
  "text_foot = [CHR 0x0A # replicate 50 (CHR ''=''), ''Delivered by Daily News Digest'']"

definition html_head :: "string \<Rightarrow> string list" where
  "html_head date_str = [html_open, h1_line, date_line date_str]"

definition html_foot :: "string list" where
  "html_foot = [hr_line, footer_line, ''</body></html>'']"

subsection \<open>Reading the rendered lines back\<close>

definition is_header_line :: "string \<Rightarrow> bool" where
  \<comment> \<open>the text line that opens the block of one of the six sources\<close>
  "is_header_line l = (l \<in> set (map header_line source_order))"

definition is_h2_line :: "string \<Rightarrow> bool" where
  "is_h2_line l = (take 3 l = ''<h2'')"

definition is_section_line :: "string \<Rightarrow> bool" where
  "is_section_line l = (take 3 l = [CHR 0x0A, CHR '' '', CHR '' ''])"

definition is_h3_line :: "string \<Rightarrow> bool" where
  "is_h3_line l = (take 3 l = ''<h3'')"

definition is_bullet_line :: "string \<Rightarrow> bool" where
  "is_bullet_line l = (take 4 l = ''  - '')"

definition is_title_line :: "string \<Rightarrow> bool" where
  \<comment> \<open>the HTML line of a headline's title: a link or plain emphasis\<close>
  "is_title_line l = (take 3 l = ''<a '' \<or> take 3 l = ''<st'')"

definition title_line :: "headline \<Rightarrow> string" where
  "title_line hl = (if url hl \<noteq> [] then a_line (url hl) (title hl) else strong_line (title hl))"


definition rendered_headlines :: "digest \<Rightarrow> headline list" where
  \<comment> \<open>the headlines with a title, by source in the fixed order, by section in the order of
      the section mapping, and in the order of each section's list\<close>
  "rendered_headlines d =
     concat (map (\<lambda>s. case map_of d s of
                         None \<Rightarrow> []
                       | Some secs \<Rightarrow> filter (\<lambda>hl. title hl \<noteq> []) (concat (map snd secs)))
                 source_order)"

fun occur_in_order :: "string list \<Rightarrow> string \<Rightarrow> bool" where
  \<comment> \<open>the strings occur in the text one after the other, without overlap\<close>
  "occur_in_order [] s = True"
| "occur_in_order (p # ps) s = (\<exists>a b. s = a @ p @ b \<and> occur_in_order ps b)"

subsection \<open>Concrete inputs\<close>

definition no_entry :: entry where
  "no_entry = \<lparr>entry_title = None, entry_link = None, entry_summary = None,
     entry_description = None, published_parsed = None, updated_parsed = None,
     published = None\<rparr>"

definition strftime_noon :: "string \<Rightarrow> int \<Rightarrow> string" where
  \<comment> \<open>\<^verbatim>\<open>strftime\<close> at 2024-01-01 12:00:00 in the C locale, for the two formats of the
      fetchers; noon of that day is the only timestamp that converts in the inputs below\<close>
  "strftime_noon f d =
     (if f = ''%b %d at %H:%M'' then ''Jan 01 at 12:00''
      else if f = ''%b %d'' then ''Jan 01'' else [])"

definition quiet_world :: world where
  \<comment> \<open>every feed parses to no entry, the credentials are set and SMTP accepts the message\<close>
  "quiet_world = \<lparr>
     feedparser_parse = (\<lambda>u. Inr \<lparr>bozo = False, entries = []\<rparr>),
     soup_get_text = strip_tags False,
     parsedate_tz = (\<lambda>s. None),
     strftime = strftime_noon,
     substacks_now = 63900000000000000,
     podcasts_now = 63900000000000000,
     body_date_str = ''Monday, January 01, 2024'',
     subject_date_str = ''January 01, 2024'',
     env_gmail_user = Some ''me@example.com'',
     env_gmail_password = Some ''app-password'',
     env_recipient_email = None,
     smtp_send = (\<lambda>m. Inr ())\<rparr>"

definition markup_entry :: entry where
  \<comment> \<open>an entry whose title is markup only\<close>
  "markup_entry = no_entry\<lparr>entry_title := Some ''<b></b>'',
     entry_link := Some ''https://example.com/a''\<rparr>"

definition long_entry :: entry where
  \<comment> \<open>an entry whose summary has 228 characters once the markup is gone\<close>
  "long_entry = no_entry\<lparr>entry_title := Some ''Budget vote'',
     entry_summary := Some (''<p>'' @ concat (replicate 45 ''word '') @ ''end</p>'')\<rparr>"

definition partial_world :: world where
  \<comment> \<open>every feed parses with the error flag set and three entries\<close>
  "partial_world = quiet_world\<lparr>feedparser_parse :=
     (\<lambda>u. Inr \<lparr>bozo = True, entries = [markup_entry, long_entry, no_entry]\<rparr>)\<rparr>"

definition demo_digest :: digest where
  \<comment> \<open>a digest filled out of the fixed order, with a source that has no headline and a
      source name the renderer does not know\<close>
  "demo_digest =
     [(''PODCASTS'', [(''New Episodes'', [])]),
      (''AXIOS'', [(''Top Stories'',
          [\<lparr>title = ''Rates hold'', url = ''https://example.com/r'', summary = ''The bank waits.''\<rparr>,
           \<lparr>title = ''Storm'', url = [], summary = []\<rparr>])]),
      (''GLOBE AND MAIL'', [(''Canada'', []), (''Politics'', [])]),
      (''SUBSTACK'', [(''AI Writers'', [])]),
      (''BLOG'', [(''Misc'', [\<lparr>title = ''Hidden'', url = [], summary = []\<rparr>])])]"

definition demo_digest_sorted :: digest where
  \<comment> \<open>the same sources in the fixed order, without the unknown one\<close>
  "demo_digest_sorted =
     [(''GLOBE AND MAIL'', [(''Canada'', []), (''Politics'', [])]),
      (''AXIOS'', [(''Top Stories'',
          [\<lparr>title = ''Rates hold'', url = ''https://example.com/r'', summary = ''The bank waits.''\<rparr>,
           \<lparr>title = ''Storm'', url = [], summary = []\<rparr>])]),
      (''SUBSTACK'', [(''AI Writers'', [])]),
      (''PODCASTS'', [(''New Episodes'', [])])]"

definition later_world :: world where
  \<comment> \<open>the same world read a day later\<close>
  "later_world = quiet_world\<lparr>body_date_str := ''Tuesday, January 02, 2024''\<rparr>"

definition noon :: struct_time where
  \<comment> \<open>2024-01-01 12:00:00\<close>
  "noon = \<lparr>tm_year = 2024, tm_mon = 1, tm_mday = 1, tm_hour = 12, tm_min = 0, tm_sec = 0\<rparr>"

definition untitled_entry :: entry where
  \<comment> \<open>an entry published at noon, with no title\<close>
  "untitled_entry = no_entry\<lparr>entry_link := Some ''https://example.com/u'',
     published_parsed := Some noon\<rparr>"

definition recent_entry :: entry where
  \<comment> \<open>an entry with a title and no publish time, updated at noon\<close>
  "recent_entry = no_entry\<lparr>entry_title := Some '' Launch notes '',
     entry_link := Some ''https://example.com/l'', updated_parsed := Some noon\<rparr>"

definition misdated_entry :: entry where
  \<comment> \<open>an entry with a title whose publish time has the leap second 60, which a time tuple
      may hold and \<^verbatim>\<open>datetime\<close> rejects, and which was updated at noon\<close>
  "misdated_entry = no_entry\<lparr>entry_title := Some ''Leap second'',
     entry_link := Some ''https://example.com/s'',
     published_parsed := Some (noon\<lparr>tm_sec := 60\<rparr>), updated_parsed := Some noon\<rparr>"

definition substack_world :: world where
  \<comment> \<open>one hour after noon, every feed holds the three entries above\<close>
  "substack_world = quiet_world\<lparr>
     feedparser_parse :=
       (\<lambda>u. Inr \<lparr>bozo = False, entries = [untitled_entry, misdated_entry, recent_entry]\<rparr>),
     substacks_now := 63839710800000000\<rparr>"

definition demo_digest_shuffled :: digest where
  \<comment> \<open>the entries of \<open>demo_digest\<close>, inserted in another order\<close>
  "demo_digest_shuffled =
     [(''BLOG'', [(''Misc'', [\<lparr>title = ''Hidden'', url = [], summary = []\<rparr>])]),
      (''SUBSTACK'', [(''AI Writers'', [])]),
      (''GLOBE AND MAIL'', [(''Canada'', []), (''Politics'', [])]),
      (''PODCASTS'', [(''New Episodes'', [])]),
      (''AXIOS'', [(''Top Stories'',
          [\<lparr>title = ''Rates hold'', url = ''https://example.com/r'', summary = ''The bank waits.''\<rparr>,
           \<lparr>title = ''Storm'', url = [], summary = []\<rparr>])])]"


section \<open>Properties\<close>

subsection \<open>The feed fetcher\<close>

lemma try_except_Inr: "try_except b (\<lambda>e. Inr v) = Inr (case b of Inl e \<Rightarrow> v | Inr r \<Rightarrow> r)"
  by (simp add: try_except_def split: sum.splits)

lemma length_slice_upto: "0 \<le> n \<Longrightarrow> length (slice_upto xs n) \<le> nat n"
  by (simp add: slice_upto_def)

lemma slice_upto_nonneg: "0 \<le> n \<Longrightarrow> slice_upto xs n = take (nat n) xs"
  by (simp add: slice_upto_def)

text \<open>
  Claim C5. For an item bound \<open>N\<close> that is a count (\<open>0 \<le> N\<close>), \<open>parse_feed\<close> always returns
  a list and never an exception: the empty list when feedparser raises or reports an error
  with no entry, and otherwise the first \<open>N\<close> entries in the order of the feed, also when
  the error flag is set beside some entries. The result has at most \<open>N\<close> entries.
\<close>

theorem parse_feed_never_raises:
  assumes "0 \<le> N"
  shows "(\<exists>es. parse_feed w u N = Inr es \<and> length es \<le> nat N)
    \<and> (\<forall>x. feedparser_parse w u = Inl x \<longrightarrow> parse_feed w u N = Inr [])
    \<and> (\<forall>fd. feedparser_parse w u = Inr fd \<longrightarrow> bozo fd \<longrightarrow> entries fd = []
           \<longrightarrow> parse_feed w u N = Inr [])
    \<and> (\<forall>fd. feedparser_parse w u = Inr fd \<longrightarrow> \<not> (bozo fd \<and> entries fd = [])
           \<longrightarrow> parse_feed w u N = Inr (take (nat N) (entries fd)))"
  using assms
  by (cases "feedparser_parse w u")
     (auto simp: parse_feed_def try_except_def slice_upto_nonneg)

theorem parse_feed_never_raises_witness:
  "(0::int) \<le> 2
   \<and> parse_feed partial_world ''https://example.com/feed'' 2 = Inr [markup_entry, long_entry]"
  using parse_feed_never_raises [of 2 partial_world "''https://example.com/feed''"]
  by (simp add: partial_world_def quiet_world_def)

subsection \<open>Normalising an entry\<close>

text \<open>
  Claim C1. The emptiness test of \<open>entry_to_headline\<close> reads the title before the markup is
  stripped. An entry whose title is the markup \<^verbatim>\<open><b></b>\<close> passes the test, and the headline
  produced has the empty title.
\<close>

theorem markup_only_title_yields_headline: "entry_to_headline quiet_world markup_entry True
   = Some \<lparr>title = [], url = ''https://example.com/a'', summary = []\<rparr>"
  by (simp add: entry_to_headline_def markup_entry_def no_entry_def quiet_world_def
      get_or_empty_def strip_def is_space_def clean_html_def split_ws_def
      summary_or_description_def)

lemma split_acc_no_space:
  "\<forall>c\<in>set cur. \<not> is_space c \<Longrightarrow> \<forall>x\<in>set (split_acc cur s). \<forall>c\<in>set x. \<not> is_space c"
proof (induction s arbitrary: cur)
  case Nil
  then show ?case by simp
next
  case (Cons a s)
  show ?case
  proof (cases "is_space a")
    case True
    with Cons.prems Cons.IH[of "[]"] show ?thesis by simp
  next
    case False
    with Cons.prems Cons.IH[of "cur @ [a]"] show ?thesis by simp
  qed
qed

lemma set_join: "set (join sep xs) \<subseteq> set sep \<union> \<Union> (set ` set xs)"
  by (induction sep xs rule: join.induct) auto

lemma set_strip: "set (strip s) \<subseteq> set s"
proof -
  have "set (strip s) = set (dropWhile is_space (rev (dropWhile is_space s)))"
    by (simp add: strip_def)
  also have "\<dots> \<subseteq> set (rev (dropWhile is_space s))"
    by (rule set_dropWhileD[THEN subsetI]) 
  also have "\<dots> \<subseteq> set s"
    using set_dropWhileD by fastforce
  finally show ?thesis .
qed

lemma clean_html_space:
  assumes "c \<in> set (clean_html w s)" and "is_space c"
  shows "c = CHR '' ''"
proof -
  from assms(1) have "s \<noteq> []" and "c \<in> set (strip (join '' '' (split_ws (soup_get_text w s))))"
    by (auto simp: clean_html_def split: if_splits)
  then have "c \<in> set (join '' '' (split_ws (soup_get_text w s)))"
    using set_strip by blast
  then have "c \<in> set '' '' \<or> (\<exists>x\<in>set (split_ws (soup_get_text w s)). c \<in> set x)"
    using set_join by fastforce
  then show ?thesis
  proof
    assume "c \<in> set '' ''" then show ?thesis by simp
  next
    assume "\<exists>x\<in>set (split_ws (soup_get_text w s)). c \<in> set x"
    then obtain x where "x \<in> set (split_acc [] (soup_get_text w s))" and "c \<in> set x"
      by (auto simp: split_ws_def)
    then have "\<not> is_space c" using split_acc_no_space[of "[]" "soup_get_text w s"] by simp
    with assms(2) show ?thesis by simp
  qed
qed

lemma rsplit1_first_no_space: "CHR '' '' \<notin> set s \<Longrightarrow> rsplit1_first s = s"
  by (simp add: rsplit1_first_def)

lemma rsplit1_first_last_space:
  assumes "CHR '' '' \<in> set s"
  shows "\<exists>k<length s. s ! k = CHR '' '' \<and> (\<forall>j. k < j \<and> j < length s \<longrightarrow> s ! j \<noteq> CHR '' '')
           \<and> rsplit1_first s = take k s"
proof -
  define a where "a = takeWhile (\<lambda>c. c \<noteq> CHR '' '') (rev s)"
  define b where "b = dropWhile (\<lambda>c. c \<noteq> CHR '' '') (rev s)"
  have ab: "rev s = a @ b" by (simp add: a_def b_def)
  have a: "\<forall>c\<in>set a. c \<noteq> CHR '' ''"
    unfolding a_def by (auto dest: set_takeWhileD)
  from assms have "b \<noteq> []" by (simp add: b_def dropWhile_eq_Nil_conv)
  moreover from this have "hd b = CHR '' ''"
    unfolding b_def using hd_dropWhile[of "\<lambda>c. c \<noteq> CHR '' ''" "rev s"] by simp
  ultimately obtain b' where b: "b = CHR '' '' # b'" by (cases b) auto
  have r: "rsplit1_first s = rev b'"
    using assms b by (simp add: rsplit1_first_def b_def[symmetric])
  have s: "s = rev b' @ CHR '' '' # rev a"
    using arg_cong[OF ab, of rev] by (simp add: b)
  have k: "length b' < length s" by (subst s) simp
  have sk: "s ! length b' = CHR '' ''" by (subst s) (simp add: nth_append)
  have after: "\<forall>j. length b' < j \<and> j < length s \<longrightarrow> s ! j \<noteq> CHR '' ''"
  proof (intro allI impI)
    fix j assume j: "length b' < j \<and> j < length s"
    have len: "length s = length b' + 1 + length a" by (subst s) simp
    have "s ! j = (rev b' @ CHR '' '' # rev a) ! j" using s by simp
    also have "\<dots> = rev a ! (j - length b' - 1)"
      using j by (simp add: nth_append nth_Cons')
    finally have "s ! j = rev a ! (j - length b' - 1)" .
    moreover have "j - length b' - 1 < length (rev a)" using j len by auto
    ultimately have "s ! j \<in> set (rev a)" using nth_mem by metis
    then show "s ! j \<noteq> CHR '' ''" using a by simp
  qed
  have "rev b' = take (length b') s" by (subst s) simp
  with r k sk after show ?thesis by metis
qed

lemma length_rsplit1_first: "length (rsplit1_first s) \<le> length s"
  by (simp add: rsplit1_first_def) (metis diff_le_self le_trans length_dropWhile_le length_rev)

lemma length_truncate_200: "length (truncate_text t 200) \<le> 203"
proof (cases "t = [] \<or> int (length t) \<le> 200")
  case True
  then show ?thesis by (auto simp: truncate_text_def)
next
  case False
  then have "truncate_text t 200 = rsplit1_first (take 200 t) @ ''...''"
    by (simp add: truncate_text_def slice_upto_def)
  moreover have "length (rsplit1_first (take 200 t)) \<le> 200"
    using length_rsplit1_first[of "take 200 t"] by simp
  ultimately show ?thesis by simp
qed

lemma is_space_blank: "is_space (CHR '' '')"
  by (simp add: is_space_def)

lemma truncate_text_short: "length t \<le> 200 \<Longrightarrow> truncate_text t 200 = t"
  by (simp add: truncate_text_def)

lemma truncate_text_long:
  "200 < length t \<Longrightarrow> truncate_text t 200 = rsplit1_first (take 200 t) @ ''...''"
  by (auto simp: truncate_text_def slice_upto_def)

lemma truncate_text_clean:
  assumes clean: "\<forall>c\<in>set t. is_space c \<longrightarrow> c = CHR '' ''" and long: "200 < length t"
  shows "if \<exists>c\<in>set (take 200 t). is_space c
         then \<exists>k<200. is_space (t ! k) \<and> (\<forall>j. k < j \<and> j < 200 \<longrightarrow> \<not> is_space (t ! j))
                \<and> truncate_text t 200 = take k t @ ''...''
         else truncate_text t 200 = take 200 t @ ''...''"
proof (cases "\<exists>c\<in>set (take 200 t). is_space c")
  case False
  then have "CHR '' '' \<notin> set (take 200 t)" using is_space_blank by blast
  then show ?thesis
    using False long by (simp add: truncate_text_long rsplit1_first_no_space)
next
  case True
  then obtain c where "c \<in> set (take 200 t)" and "is_space c" by blast
  moreover from this have "c \<in> set t" by (meson in_set_takeD)
  ultimately have "CHR '' '' \<in> set (take 200 t)" using clean by auto
  from rsplit1_first_last_space[OF this] long
  obtain k where k: "k < 200" and tk: "take 200 t ! k = CHR '' ''"
    and after: "\<forall>j. k < j \<and> j < 200 \<longrightarrow> take 200 t ! j \<noteq> CHR '' ''"
    and r: "rsplit1_first (take 200 t) = take k (take 200 t)"
    by auto
  have "is_space (t ! k)" using tk k is_space_blank by simp
  moreover have "\<forall>j. k < j \<and> j < 200 \<longrightarrow> \<not> is_space (t ! j)"
  proof (intro allI impI)
    fix j assume j: "k < j \<and> j < 200"
    then have "t ! j \<noteq> CHR '' ''" using after by auto
    moreover have "t ! j \<in> set t" using j long by simp
    ultimately show "\<not> is_space (t ! j)" using clean by blast
  qed
  moreover have "truncate_text t 200 = take k t @ ''...''"
    using r k long by (simp add: truncate_text_long min_def)
  ultimately show ?thesis using True k by auto
qed

text \<open>
  Claim C3. The summary of a produced headline has at most 203 characters. It is empty when
  no summary is asked for or the entry has none; otherwise it is the cleaned text \<open>t\<close>
  truncated: \<open>t\<close> itself when \<open>t\<close> has at most 200 characters, and else the part of \<open>t\<close>
  before the last whitespace among its first 200 characters followed by the ellipsis, or
  the first 200 characters and the ellipsis when there is no whitespace among them.
\<close>

theorem summary_truncation:
  assumes "entry_to_headline w e inc = Some h"
  shows "length (summary h) \<le> 203
    \<and> (\<not> inc \<or> summary_or_description e = [] \<longrightarrow> summary h = [])
    \<and> (inc \<and> summary_or_description e \<noteq> [] \<longrightarrow>
         (let t = clean_html w (summary_or_description e)
          in summary h = truncate_text t 200
             \<and> (length t \<le> 200 \<longrightarrow> summary h = t)
             \<and> (200 < length t \<longrightarrow>
                  (if \<exists>c\<in>set (take 200 t). is_space c
                   then \<exists>k<200. is_space (t ! k)
                          \<and> (\<forall>j. k < j \<and> j < 200 \<longrightarrow> \<not> is_space (t ! j))
                          \<and> summary h = take k t @ ''...''
                   else summary h = take 200 t @ ''...''))))
    \<and> length (truncate_text x 200) \<le> 203
    \<and> (length x \<le> 200 \<longrightarrow> truncate_text x 200 = x)"
proof -
  let ?t = "clean_html w (summary_or_description e)"
  have clean: "\<forall>c\<in>set ?t. is_space c \<longrightarrow> c = CHR '' ''"
    using clean_html_space by blast
  have s: "summary h = (if inc \<and> summary_or_description e \<noteq> [] then truncate_text ?t 200 else [])"
    using assms by (auto simp: entry_to_headline_def Let_def split: if_splits)
  have 1: "length (summary h) \<le> 203" using s length_truncate_200[of ?t] by simp
  have 2: "\<not> inc \<or> summary_or_description e = [] \<longrightarrow> summary h = []" using s by auto
  have 3: "inc \<and> summary_or_description e \<noteq> [] \<longrightarrow>
         (let t = ?t
          in summary h = truncate_text t 200
             \<and> (length t \<le> 200 \<longrightarrow> summary h = t)
             \<and> (200 < length t \<longrightarrow>
                  (if \<exists>c\<in>set (take 200 t). is_space c
                   then \<exists>k<200. is_space (t ! k)
                          \<and> (\<forall>j. k < j \<and> j < 200 \<longrightarrow> \<not> is_space (t ! j))
                          \<and> summary h = take k t @ ''...''
                   else summary h = take 200 t @ ''...'')))"
  proof
    assume "inc \<and> summary_or_description e \<noteq> []"
    then have eq: "summary h = truncate_text ?t 200" using s by simp
    have "length ?t \<le> 200 \<longrightarrow> summary h = ?t" using eq truncate_text_short by simp
    moreover have "200 < length ?t \<longrightarrow>
                  (if \<exists>c\<in>set (take 200 ?t). is_space c
                   then \<exists>k<200. is_space (?t ! k)
                          \<and> (\<forall>j. k < j \<and> j < 200 \<longrightarrow> \<not> is_space (?t ! j))
                          \<and> summary h = take k ?t @ ''...''
                   else summary h = take 200 ?t @ ''...'')"
      using truncate_text_clean[OF clean] unfolding eq by blast
    ultimately show "let t = ?t
          in summary h = truncate_text t 200
             \<and> (length t \<le> 200 \<longrightarrow> summary h = t)
             \<and> (200 < length t \<longrightarrow>
                  (if \<exists>c\<in>set (take 200 t). is_space c
                   then \<exists>k<200. is_space (t ! k)
                          \<and> (\<forall>j. k < j \<and> j < 200 \<longrightarrow> \<not> is_space (t ! j))
                          \<and> summary h = take k t @ ''...''
                   else summary h = take 200 t @ ''...''))"
      unfolding Let_def using eq by blast
  qed
  show ?thesis
    using 1 2 3 length_truncate_200[of x] truncate_text_short[of x] by blast
qed

theorem summary_truncation_witness:
  "entry_to_headline quiet_world long_entry True
     = Some \<lparr>title = ''Budget vote'', url = [],
              summary = concat (replicate 39 ''word '') @ ''word...''\<rparr>
   \<and> length (concat (replicate 39 ''word '') @ ''word...'') \<le> 203
   \<and> 200 < length (clean_html quiet_world (summary_or_description long_entry))"
proof -
  have h: "entry_to_headline quiet_world long_entry True
     = Some \<lparr>title = ''Budget vote'', url = [],
              summary = concat (replicate 39 ''word '') @ ''word...''\<rparr>"
    by code_simp
  have l: "200 < length (clean_html quiet_world (summary_or_description long_entry))"
    by code_simp
  from summary_truncation [OF h] h l show ?thesis by simp
qed

subsection \<open>The renderer follows the traversal\<close>

lemma events_text_simps:
  "events_text [] = []"
  "events_text (e # evs) = event_text e @ events_text evs"
  "events_text (xs @ ys) = events_text xs @ events_text ys"
  by (simp_all add: events_text_def)

lemma events_html_simps:
  "events_html [] = []"
  "events_html (e # evs) = event_html e @ events_html evs"
  "events_html (xs @ ys) = events_html xs @ events_html ys"
  by (simp_all add: events_html_def)

lemma render_headline_events:
  "render_headline hl (t, h)
     = (t @ events_text (headline_events hl), h @ events_html (headline_events hl))"
  by (simp add: render_headline_def headline_events_def text_append_def html_append_def
      events_text_simps events_html_simps Let_def)

lemma fold_render_headline:
  "fold render_headline hs (t, h)
     = (t @ events_text (concat (map headline_events hs)),
        h @ events_html (concat (map headline_events hs)))"
  by (induction hs arbitrary: t h)
     (simp_all add: render_headline_events events_text_simps events_html_simps)

lemma render_section_events:
  "render_section n sec (t, h)
     = (t @ events_text (section_events n sec), h @ events_html (section_events n sec))"
  by (cases sec)
     (simp add: render_section_def section_events_def text_append_def html_append_def
      fold_render_headline events_text_simps events_html_simps Let_def)

lemma fold_render_section:
  "fold (render_section n) secs (t, h)
     = (t @ events_text (concat (map (section_events n) secs)),
        h @ events_html (concat (map (section_events n) secs)))"
  by (induction secs arbitrary: t h)
     (simp_all add: render_section_events events_text_simps events_html_simps)

lemma render_source_events:
  "render_source d s (t, h)
     = (t @ events_text (source_events d s), h @ events_html (source_events d s))"
  by (cases "map_of d s")
     (simp_all add: render_source_def source_events_def shown_def text_append_def
      html_append_def fold_render_section empty_state_msg_def events_text_simps events_html_simps Let_def)

lemma fold_render_source:
  "fold (render_source d) srcs (t, h)
     = (t @ events_text (concat (map (source_events d) srcs)),
        h @ events_html (concat (map (source_events d) srcs)))"
  by (induction srcs arbitrary: t h)
     (simp_all add: render_source_events events_text_simps events_html_simps)

lemma format_lines_traversal:
  "format_lines date_str d
     = (text_head date_str @ events_text (traversal d) @ text_foot,
        html_head date_str @ events_html (traversal d) @ html_foot)"
  by (simp add: format_lines_def traversal_def text_append_def html_append_def
      fold_render_source text_head_def text_foot_def html_head_def html_foot_def Let_def)

subsection \<open>Telling the rendered lines apart\<close>

lemma html_take3:
  "take 3 (h2_line s) = ''<h2''"
  "take 3 (empty_line m) = ''<p ''"
  "take 3 (h3_line n) = ''<h3''"
  "take 3 ul_open = ''<ul''"
  "take 3 li_open = ''<li''"
  "take 3 (a_line u t) = ''<a ''"
  "take 3 (strong_line t) = ''<st''"
  "take 3 (span_line x) = ''<br''"
  "take 3 html_open = ''<ht''"
  "take 3 h1_line = ''<h1''"
  "take 3 (date_line dt) = ''<p ''"
  "take 3 hr_line = ''<hr''"
  "take 3 footer_line = ''<p ''"
  by (simp_all add: h2_line_def h2_open_def empty_line_def h3_line_def h3_open_def ul_open_def
      li_open_def a_line_def strong_line_def span_line_def html_open_def h1_line_def
      date_line_def hr_line_def footer_line_def)

lemma filter_events_text:
  "filter P (events_text evs) = concat (map (\<lambda>e. filter P (event_text e)) evs)"
  by (simp add: events_text_def filter_concat comp_def)

lemma filter_events_html:
  "filter P (events_html evs) = concat (map (\<lambda>e. filter P (event_html e)) evs)"
  by (simp add: events_html_def filter_concat comp_def)

lemma h2_event: "filter is_h2_line (event_html e) = map h2_line (event_source e)"
  by (cases e) (simp_all add: is_h2_line_def html_take3)

lemma title_event: "filter is_title_line (event_html e) = map title_line (event_headline e)"
  by (cases e) (simp_all add: is_title_line_def title_line_def html_take3)


lemma html_head_foot_none:
  "filter is_h2_line (html_head dt) = []" "filter is_h2_line html_foot = []"
  "filter is_h3_line (html_head dt) = []" "filter is_h3_line html_foot = []"
  "filter is_title_line (html_head dt) = []" "filter is_title_line html_foot = []"
  by (simp_all add: html_head_def html_foot_def is_h2_line_def is_h3_line_def
      is_title_line_def html_take3)


lemma has_content_iff: "has_content secs \<longleftrightarrow> (\<exists>sec\<in>set secs. snd sec \<noteq> [])"
  by (auto simp: has_content_def list_ex_iff)


lemma no_content_concat: "\<not> has_content secs \<Longrightarrow> concat (map snd secs) = []"
  by (simp add: has_content_iff)

lemma no_content_iff: "\<not> has_content secs \<longleftrightarrow> concat (map snd secs) = []"
  by (auto simp: has_content_iff)

lemma concat_if_filter: "concat (map (\<lambda>x. if P x then [x] else []) xs) = filter P xs"
  by (induction xs) simp_all

text \<open>What the traversal visits.\<close>

lemma sources_of_simps:
  "sources_of [] = []"
  "sources_of (e # evs) = event_source e @ sources_of evs"
  "sources_of (xs @ ys) = sources_of xs @ sources_of ys"
  by (simp_all add: sources_of_def)

lemma sections_of_simps:
  "sections_of [] = []"
  "sections_of (e # evs) = event_section e @ sections_of evs"
  "sections_of (xs @ ys) = sections_of xs @ sections_of ys"
  by (simp_all add: sections_of_def)

lemma headlines_of_simps:
  "headlines_of [] = []"
  "headlines_of (e # evs) = event_headline e @ headlines_of evs"
  "headlines_of (xs @ ys) = headlines_of xs @ headlines_of ys"
  by (simp_all add: headlines_of_def)

lemmas of_simps = sources_of_simps sections_of_simps headlines_of_simps

lemma of_concat:
  "sources_of (concat xss) = concat (map sources_of xss)"
  "sections_of (concat xss) = concat (map sections_of xss)"
  "headlines_of (concat xss) = concat (map headlines_of xss)"
  by (induction xss) (simp_all add: of_simps)

lemma headline_events_of:
  "sources_of (headline_events hl) = []"
  "sections_of (headline_events hl) = []"
  "headlines_of (headline_events hl) = (if title hl \<noteq> [] then [hl] else [])"
  by (simp_all add: headline_events_def of_simps)

lemma headlines_events_of:
  "sources_of (concat (map headline_events hs)) = []"
  "sections_of (concat (map headline_events hs)) = []"
  "headlines_of (concat (map headline_events hs)) = filter (\<lambda>hl. title hl \<noteq> []) hs"
  by (induction hs) (simp_all add: headline_events_of of_simps)

lemma section_events_of:
  "sources_of (section_events n sec) = []"
  "sections_of (section_events n sec) = (if n > 1 \<and> snd sec \<noteq> [] then [fst sec] else [])"
  "headlines_of (section_events n sec) = filter (\<lambda>hl. title hl \<noteq> []) (snd sec)"
  by (cases sec; simp add: section_events_def headlines_events_of of_simps)+

lemma sections_events_of:
  "sources_of (concat (map (section_events n) secs)) = []"
  "sections_of (concat (map (section_events n) secs))
     = (if n > 1 then map fst (filter (\<lambda>sec. snd sec \<noteq> []) secs) else [])"
  "headlines_of (concat (map (section_events n) secs))
     = filter (\<lambda>hl. title hl \<noteq> []) (concat (map snd secs))"
  by (induction secs) (simp_all add: section_events_of of_simps)

lemma source_events_sources:
  "sources_of (source_events d s) = (if shown d s then [s] else [])"
  by (cases "map_of d s")
     (simp_all add: source_events_def shown_def sections_events_of of_simps)


lemma source_events_headlines:
  "headlines_of (source_events d s)
     = (case map_of d s of
          None \<Rightarrow> []
        | Some secs \<Rightarrow> filter (\<lambda>hl. title hl \<noteq> []) (concat (map snd secs)))"
  by (cases "map_of d s")
     (simp_all add: source_events_def shown_def sections_events_of of_simps no_content_concat)

lemma traversal_sources: "sources_of (traversal d) = filter (shown d) source_order"
  by (simp add: traversal_def of_concat comp_def source_events_sources concat_if_filter)


lemma traversal_headlines: "headlines_of (traversal d) = rendered_headlines d"
  by (simp add: traversal_def of_concat comp_def source_events_headlines
      rendered_headlines_def)

lemma take_replicate_neq: "x \<in> set l \<Longrightarrow> x \<noteq> c \<Longrightarrow> take k (replicate n c) \<noteq> l"
  by (auto simp: take_replicate)

lemma replicate_neq: "x \<in> set l \<Longrightarrow> x \<noteq> c \<Longrightarrow> replicate n c \<noteq> l"
  by auto

lemma is_header_line_iff: "is_header_line l \<longleftrightarrow> (\<exists>s\<in>set source_order. l = header_line s)"
  by (auto simp: is_header_line_def)

lemma is_header_lineD:
  assumes "is_header_line l"
  shows "\<exists>c cs. l = CHR 0x0A # c # cs \<and> c \<noteq> CHR '' '' \<and> c \<noteq> CHR ''=''"
  using assms by (auto simp: is_header_line_iff source_order_def header_line_def)

lemma is_header_line_header: "is_header_line (header_line s) \<longleftrightarrow> s \<in> set source_order"
  by (auto simp: is_header_line_iff header_line_def)

lemma not_header:
  "\<not> is_header_line []"
  "\<not> is_header_line (CHR '' '' # x)"
  "\<not> is_header_line (replicate n (CHR ''-''))"
  "\<not> is_header_line (replicate n (CHR ''=''))"
  "\<not> is_header_line (section_line nm)"
  "\<not> is_header_line (bullet_line t)"
  "\<not> is_header_line (indent_line t)"
  "\<not> is_header_line (CHR ''D'' # x)"
  "\<not> is_header_line (CHR 0x0A # replicate n (CHR ''=''))"
proof -
  show "\<not> is_header_line []" using is_header_lineD by blast
  show "\<not> is_header_line (CHR '' '' # x)" using is_header_lineD by fastforce
  show "\<not> is_header_line (replicate n (CHR ''-''))"
    using is_header_lineD[of "replicate n (CHR ''-'')"] by (cases n) auto
  show "\<not> is_header_line (replicate n (CHR ''=''))"
    using is_header_lineD[of "replicate n (CHR ''='')"] by (cases n) auto
  show "\<not> is_header_line (section_line nm)"
    using is_header_lineD[of "section_line nm"] by (auto simp: section_line_def)
  show "\<not> is_header_line (bullet_line t)"
    using is_header_lineD[of "bullet_line t"] by (auto simp: bullet_line_def)
  show "\<not> is_header_line (indent_line t)"
    using is_header_lineD[of "indent_line t"] by (auto simp: indent_line_def)
  show "\<not> is_header_line (CHR ''D'' # x)" using is_header_lineD by fastforce
  show "\<not> is_header_line (CHR 0x0A # replicate n (CHR ''=''))"
    using is_header_lineD[of "CHR 0x0A # replicate n (CHR ''='')"] by (cases n) auto
qed

lemma header_event:
  "set (event_source e) \<subseteq> set source_order \<Longrightarrow>
   filter is_header_line (event_text e) = map header_line (event_source e)"
  by (cases e) (simp_all add: not_header is_header_line_header)

lemma bullet_event:
  "filter is_bullet_line (event_text e) = map (\<lambda>hl. bullet_line (title hl)) (event_headline e)"
proof (cases e)
  case (SourceHeader s)
  have "take 4 (replicate (length s) (CHR ''-'')) \<noteq> ''  - ''"
    by (rule take_replicate_neq[of "CHR '' ''"]) simp_all
  then show ?thesis using SourceHeader by (simp add: is_bullet_line_def header_line_def)
next
  case (EmptyState s)
  then show ?thesis
    by (simp add: is_bullet_line_def empty_state_msg_def no_posts_msg_def no_episodes_msg_def)
next
  case (SectionHeader n)
  then show ?thesis by (simp add: is_bullet_line_def section_line_def)
next
  case (Item hl)
  then show ?thesis by (simp add: is_bullet_line_def bullet_line_def indent_line_def)
qed (simp_all add: is_bullet_line_def)

lemma section_event:
  assumes "set (event_source e) \<subseteq> set source_order"
  shows "filter is_section_line (event_text e) = map section_line (event_section e)"
proof (cases e)
  case (SourceHeader s)
  have "take 3 (replicate (length s) (CHR ''-'')) \<noteq> [CHR 0x0A, CHR '' '', CHR '' '']"
    by (rule take_replicate_neq[of "CHR '' ''"]) simp_all
  moreover have "take 3 (header_line s) \<noteq> [CHR 0x0A, CHR '' '', CHR '' '']"
    using assms SourceHeader by (auto simp: source_order_def header_line_def)
  ultimately show ?thesis using SourceHeader by (simp add: is_section_line_def)
next
  case (EmptyState s)
  then show ?thesis by (simp add: is_section_line_def)
next
  case (SectionHeader n)
  then show ?thesis by (simp add: is_section_line_def section_line_def)
next
  case (Item hl)
  then show ?thesis by (simp add: is_section_line_def bullet_line_def indent_line_def)
qed (simp_all add: is_section_line_def)

lemma text_head_foot_none:
  "filter is_header_line (text_head dt) = []" "filter is_header_line text_foot = []"
  "filter is_bullet_line (text_head dt) = []" "filter is_bullet_line text_foot = []"
  "filter is_section_line (text_head dt) = []" "filter is_section_line text_foot = []"
proof -
  have r: "\<And>n l. CHR '' '' \<in> set l \<Longrightarrow> replicate n (CHR ''='') \<noteq> l"
    by (rule replicate_neq[of "CHR '' ''"]) simp_all
  show "filter is_header_line (text_head dt) = []" "filter is_header_line text_foot = []"
    by (simp_all add: text_head_def text_foot_def not_header)
  show "filter is_bullet_line (text_head dt) = []" "filter is_bullet_line text_foot = []"
    by (simp_all add: text_head_def text_foot_def is_bullet_line_def r)
  show "filter is_section_line (text_head dt) = []" "filter is_section_line text_foot = []"
    by (simp_all add: text_head_def text_foot_def is_section_line_def r)
qed

lemma h2_events: "filter is_h2_line (events_html evs) = map h2_line (sources_of evs)"
  by (induction evs) (simp_all add: events_html_simps sources_of_simps h2_event)


lemma title_events: "filter is_title_line (events_html evs) = map title_line (headlines_of evs)"
  by (induction evs) (simp_all add: events_html_simps headlines_of_simps title_event)

lemma bullet_events:
  "filter is_bullet_line (events_text evs) = map (\<lambda>hl. bullet_line (title hl)) (headlines_of evs)"
  by (induction evs) (simp_all add: events_text_simps headlines_of_simps bullet_event)

lemma header_events:
  "set (sources_of evs) \<subseteq> set source_order \<Longrightarrow>
   filter is_header_line (events_text evs) = map header_line (sources_of evs)"
  by (induction evs) (simp_all add: events_text_simps sources_of_simps header_event)

lemma section_events:
  "set (sources_of evs) \<subseteq> set source_order \<Longrightarrow>
   filter is_section_line (events_text evs) = map section_line (sections_of evs)"
  by (induction evs) (simp_all add: events_text_simps sources_of_simps sections_of_simps section_event)

lemma traversal_sources_subset: "set (sources_of (traversal d)) \<subseteq> set source_order"
  by (simp add: traversal_sources)

lemma text_headers:
  "filter is_header_line (fst (format_lines dt d)) = map header_line (filter (shown d) source_order)"
  using header_events[OF traversal_sources_subset, of d]
  by (simp add: format_lines_traversal text_head_foot_none traversal_sources)

lemma html_headers:
  "filter is_h2_line (snd (format_lines dt d)) = map h2_line (filter (shown d) source_order)"
  by (simp add: format_lines_traversal html_head_foot_none h2_events traversal_sources)



lemma text_bullets:
  "filter is_bullet_line (fst (format_lines dt d))
     = map (\<lambda>hl. bullet_line (title hl)) (rendered_headlines d)"
  by (simp add: format_lines_traversal text_head_foot_none bullet_events traversal_headlines)

lemma html_titles:
  "filter is_title_line (snd (format_lines dt d)) = map title_line (rendered_headlines d)"
  by (simp add: format_lines_traversal html_head_foot_none title_events traversal_headlines)

lemma format_email_body_lines:
  "format_email_body w d
     = (join [CHR 0x0A] (fst (format_lines (body_date_str w) d)),
        join [CHR 0x0A] (snd (format_lines (body_date_str w) d)))"
  by (simp add: format_email_body_def split_beta)


subsection \<open>What the renderer reads\<close>

lemma inj_header_line: "header_line s = header_line s' \<longleftrightarrow> s = s'"
  by (simp add: header_line_def)

lemma inj_h2_line: "h2_line s = h2_line s' \<longleftrightarrow> s = s'"
  by (simp add: h2_line_def)

lemma text_header_shown:
  assumes "s \<in> set source_order"
  shows "header_line s \<in> set (fst (format_lines dt d)) \<longleftrightarrow> shown d s"
proof -
  have "header_line s \<in> set (fst (format_lines dt d))
        \<longleftrightarrow> header_line s \<in> set (filter is_header_line (fst (format_lines dt d)))"
    using assms by (simp add: is_header_line_header)
  also have "\<dots> \<longleftrightarrow> header_line s \<in> header_line ` set (filter (shown d) source_order)"
    by (simp only: text_headers set_map)
  also have "\<dots> \<longleftrightarrow> shown d s"
    using assms by (auto simp: inj_header_line)
  finally show ?thesis .
qed

lemma html_header_shown:
  assumes "s \<in> set source_order"
  shows "h2_line s \<in> set (snd (format_lines dt d)) \<longleftrightarrow> shown d s"
proof -
  have "h2_line s \<in> set (snd (format_lines dt d))
        \<longleftrightarrow> h2_line s \<in> set (filter is_h2_line (snd (format_lines dt d)))"
    by (simp add: is_h2_line_def html_take3)
  also have "\<dots> \<longleftrightarrow> h2_line s \<in> h2_line ` set (filter (shown d) source_order)"
    by (simp only: html_headers set_map)
  also have "\<dots> \<longleftrightarrow> shown d s"
    using assms by (auto simp: inj_h2_line)
  finally show ?thesis .
qed

lemma source_events_cong:
  assumes "map_of d s = map_of d' s"
  shows "source_events d s = source_events d' s"
proof -
  have "shown d s = shown d' s" by (simp add: shown_def assms)
  then show ?thesis unfolding source_events_def assms by (simp only:)
qed

lemma traversal_cong:
  assumes "\<forall>s\<in>set source_order. map_of d s = map_of d' s"
  shows "traversal d = traversal d'"
proof -
  have "map (source_events d) source_order = map (source_events d') source_order"
    using assms by (intro map_cong refl source_events_cong) blast
  then show ?thesis by (simp only: traversal_def)
qed

lemma format_email_body_cong:
  assumes "\<forall>s\<in>set source_order. map_of d s = map_of d' s"
  shows "format_email_body w d = format_email_body w d'"
proof -
  have "traversal d = traversal d'" using assms by (rule traversal_cong)
  then show ?thesis by (simp only: format_email_body_lines format_lines_traversal)
qed

lemma map_of_replace_other:
  "x \<noteq> k \<Longrightarrow> map_of (map (\<lambda>(k', v'). if k' = k then (k', v) else (k', v')) d) x = map_of d x"
  by (induction d) (simp_all add: split_beta)

lemma map_of_replace_same:
  "map_of d k \<noteq> None \<Longrightarrow>
   map_of (map (\<lambda>(k', v'). if k' = k then (k', v) else (k', v')) d) k = Some v"
  by (induction d) (auto simp: split_beta split: if_splits)

lemma map_of_dict_set:
  "map_of (dict_set k v d) k' = (if k' = k then Some v else map_of d k')"
proof (cases "k \<in> fst ` set d")
  case True
  then have "map_of d k \<noteq> None" by (simp add: map_of_eq_None_iff)
  then show ?thesis
    using True by (simp add: dict_set_def map_of_replace_other map_of_replace_same)
next
  case False
  then have "map_of d k = None" by (simp add: map_of_eq_None_iff)
  with False show ?thesis by (simp add: dict_set_def map_add_def split: option.splits)
qed

lemma map_of_filter_keys:
  "P k \<Longrightarrow> map_of (filter (\<lambda>kv. P (fst kv)) d) k = map_of d k"
  by (induction d) auto

subsection \<open>The date and the digest decide the output\<close>

lemma join_Cons: "xs \<noteq> [] \<Longrightarrow> join sep (x # xs) = x @ sep @ join sep xs"
  by (cases xs) simp_all

lemma join_append:
  "xs \<noteq> [] \<Longrightarrow> ys \<noteq> [] \<Longrightarrow> join sep (xs @ ys) = join sep xs @ sep @ join sep ys"
proof (induction xs)
  case Nil
  then show ?case by simp
next
  case (Cons x xs)
  show ?case
  proof (cases "xs = []")
    case True
    then show ?thesis using Cons.prems by (simp add: join_Cons)
  next
    case False
    then show ?thesis using Cons by (simp add: join_Cons)
  qed
qed

lemma text_body_date:
  "fst (format_email_body w d)
     = (''DAILY NEWS DIGEST - '' @ body_date_str w) @ [CHR 0x0A]
       @ join [CHR 0x0A] (replicate 50 (CHR ''='') # [] # events_text (traversal d) @ text_foot)"
  by (simp add: format_email_body_lines format_lines_traversal text_head_def join_Cons)

lemma format_email_body_date_inj:
  assumes "format_email_body w d = format_email_body w' d"
  shows "body_date_str w = body_date_str w'"
proof -
  from assms have "fst (format_email_body w d) = fst (format_email_body w' d)" by simp
  then show ?thesis unfolding text_body_date by simp
qed

lemma format_email_body_date_cong:
  "body_date_str w = body_date_str w' \<Longrightarrow> format_email_body w d = format_email_body w' d"
  by (simp add: format_email_body_lines)

text \<open>
  Claim C9. \<open>format_email_body\<close> reads the clock: the date string heads the text and the
  HTML. Two renderings of the same digest are identical exactly when both read the same date
  string; a rendering a day later differs. The digest itself is only read.
\<close>

theorem rendering_twice_same_date:
  "format_email_body w d = format_email_body w' d \<longleftrightarrow> body_date_str w = body_date_str w'"
  using format_email_body_date_inj format_email_body_date_cong by blast

theorem rendering_twice_same_date_witness:
  "body_date_str quiet_world = body_date_str (quiet_world\<lparr>subject_date_str := ''January 01''\<rparr>)
   \<and> format_email_body quiet_world demo_digest
       = format_email_body (quiet_world\<lparr>subject_date_str := ''January 01''\<rparr>) demo_digest"
  using rendering_twice_same_date
          [of quiet_world demo_digest "quiet_world\<lparr>subject_date_str := ''January 01''\<rparr>"]
  by simp

text \<open>
  Claim C9, as stated: the same digest rendered on two successive days gives two different
  outputs.
\<close>

theorem rendering_twice_next_day_differs:
  "format_email_body quiet_world demo_digest \<noteq> format_email_body later_world demo_digest"
proof
  assume "format_email_body quiet_world demo_digest = format_email_body later_world demo_digest"
  then have "body_date_str quiet_world = body_date_str later_world"
    by (rule format_email_body_date_inj)
  then show False by (simp add: quiet_world_def later_world_def)
qed

text \<open>
  Claim C10. The renderer reads the digest at the six fixed source names only: two digests
  that agree on these six names render alike at the same date, and neither storing sections
  under another name nor dropping all other names changes either output.
\<close>

theorem renderer_reads_six_sources:
  assumes "\<forall>s\<in>set [''NEW YORK TIMES'', ''LA PRESSE'', ''GLOBE AND MAIL'', ''AXIOS'',
                     ''SUBSTACK'', ''PODCASTS'']. map_of d s = map_of d' s"
  shows "format_email_body w d = format_email_body w d'
    \<and> (k \<notin> set source_order \<longrightarrow> format_email_body w (dict_set k v d) = format_email_body w d)
    \<and> format_email_body w (filter (\<lambda>kv. fst kv \<in> set source_order) d) = format_email_body w d"
proof -
  have 1: "format_email_body w d = format_email_body w d'"
    using assms by (intro format_email_body_cong) (simp add: source_order_def)
  have 2: "k \<notin> set source_order \<longrightarrow> format_email_body w (dict_set k v d) = format_email_body w d"
  proof
    assume "k \<notin> set source_order"
    then have "\<forall>s\<in>set source_order. map_of (dict_set k v d) s = map_of d s"
      by (auto simp: map_of_dict_set)
    then show "format_email_body w (dict_set k v d) = format_email_body w d"
      by (rule format_email_body_cong)
  qed
  have "\<forall>s\<in>set source_order. map_of (filter (\<lambda>kv. fst kv \<in> set source_order) d) s = map_of d s"
    using map_of_filter_keys[of "\<lambda>k. k \<in> set source_order"] by blast
  then have 3: "format_email_body w (filter (\<lambda>kv. fst kv \<in> set source_order) d)
                  = format_email_body w d"
    by (rule format_email_body_cong)
  from 1 2 3 show ?thesis by blast
qed

theorem renderer_reads_six_sources_witness:
  "map_of demo_digest ''AXIOS'' = map_of demo_digest_sorted ''AXIOS''
   \<and> map_of demo_digest ''BLOG'' \<noteq> map_of demo_digest_sorted ''BLOG''
   \<and> format_email_body quiet_world demo_digest = format_email_body quiet_world demo_digest_sorted"
proof -
  have h: "\<forall>s\<in>set [''NEW YORK TIMES'', ''LA PRESSE'', ''GLOBE AND MAIL'', ''AXIOS'',
              ''SUBSTACK'', ''PODCASTS'']. map_of demo_digest s = map_of demo_digest_sorted s"
    by (simp add: demo_digest_def demo_digest_sorted_def)
  have b: "map_of demo_digest ''BLOG'' \<noteq> map_of demo_digest_sorted ''BLOG''"
    by (simp add: demo_digest_def demo_digest_sorted_def)
  from renderer_reads_six_sources [OF h] h b show ?thesis by simp
qed

subsection \<open>The sources that are always shown\<close>

lemma sublist_join:
  assumes "sublist ys xs" and "ys \<noteq> []"
  shows "sublist (join sep ys) (join sep xs)"
proof -
  from assms(1) obtain ps ss where xs: "xs = ps @ ys @ ss" by (auto simp: sublist_def)
  show ?thesis
  proof (cases "ps = []")
    case True
    show ?thesis
    proof (cases "ss = []")
      case True
      with \<open>ps = []\<close> xs show ?thesis by simp
    next
      case False
      with \<open>ps = []\<close> xs assms(2) have "join sep xs = join sep ys @ sep @ join sep ss"
        by (simp add: join_append)
      then show ?thesis by (metis sublist_appendI append_Nil)
    qed
  next
    case False
    show ?thesis
    proof (cases "ss = []")
      case True
      with False xs assms(2) have "join sep xs = (join sep ps @ sep) @ join sep ys @ []"
        by (simp add: join_append)
      then show ?thesis by (metis sublist_appendI)
    next
      case ss: False
      with False xs assms(2)
      have "join sep xs = (join sep ps @ sep) @ join sep ys @ (sep @ join sep ss)"
        by (simp add: join_append)
      then show ?thesis by (metis sublist_appendI)
    qed
  qed
qed

lemma sublist_source_events:
  assumes "s \<in> set source_order"
  shows "sublist (source_events d s) (traversal d)"
proof -
  from assms obtain xs ys where xy: "source_order = xs @ s # ys" by (auto dest: split_list)
  have "traversal d
     = concat (map (source_events d) xs) @ source_events d s @ concat (map (source_events d) ys)"
    unfolding traversal_def xy by simp
  then show ?thesis by (metis sublist_appendI)
qed

lemma sublist_events_text:
  assumes "sublist evs evs'"
  shows "sublist (events_text evs) (events_text evs')"
proof -
  from assms obtain ps ss where "evs' = ps @ evs @ ss" by (auto simp: sublist_def)
  then have "events_text evs' = events_text ps @ events_text evs @ events_text ss"
    by (simp add: events_text_simps)
  then show ?thesis by (metis sublist_appendI)
qed

lemma sublist_events_html:
  assumes "sublist evs evs'"
  shows "sublist (events_html evs) (events_html evs')"
proof -
  from assms obtain ps ss where "evs' = ps @ evs @ ss" by (auto simp: sublist_def)
  then have "events_html evs' = events_html ps @ events_html evs @ events_html ss"
    by (simp add: events_html_simps)
  then show ?thesis by (metis sublist_appendI)
qed

lemma sublist_format_lines:
  assumes "s \<in> set source_order"
  shows "sublist (events_text (source_events d s)) (fst (format_lines dt d))"
    and "sublist (events_html (source_events d s)) (snd (format_lines dt d))"
proof -
  have "sublist (events_text (source_events d s)) (events_text (traversal d))"
    using assms by (intro sublist_events_text sublist_source_events)
  then obtain ps ss where "events_text (traversal d) = ps @ events_text (source_events d s) @ ss"
    by (auto simp: sublist_def)
  then have "fst (format_lines dt d)
               = (text_head dt @ ps) @ events_text (source_events d s) @ (ss @ text_foot)"
    by (simp add: format_lines_traversal)
  then show "sublist (events_text (source_events d s)) (fst (format_lines dt d))"
    by (metis sublist_appendI)
  have "sublist (events_html (source_events d s)) (events_html (traversal d))"
    using assms by (intro sublist_events_html sublist_source_events)
  then obtain ps ss where "events_html (traversal d) = ps @ events_html (source_events d s) @ ss"
    by (auto simp: sublist_def)
  then have "snd (format_lines dt d)
               = (html_head dt @ ps) @ events_html (source_events d s) @ (ss @ html_foot)"
    by (simp add: format_lines_traversal)
  then show "sublist (events_html (source_events d s)) (snd (format_lines dt d))"
    by (metis sublist_appendI)
qed

lemma empty_source_events:
  assumes "map_of d s = Some secs" and "concat (map snd secs) = []" and "s \<in> set always_show"
  shows "source_events d s = [SourceHeader s, EmptyState s]"
proof -
  have "\<not> has_content secs" using assms(2) by (simp add: no_content_iff)
  then show ?thesis using assms by (simp add: source_events_def shown_def)
qed

lemma empty_state_lines:
  assumes "map_of d s = Some secs" and "concat (map snd secs) = []" and "s \<in> set always_show"
  shows "sublist [header_line s, replicate (length s) (CHR ''-''), ''  '' @ empty_state_msg s]
           (fst (format_lines dt d))"
    and "sublist [h2_line s, empty_line (empty_state_msg s)] (snd (format_lines dt d))"
proof -
  have o: "s \<in> set source_order" using assms(3) by (auto simp: always_show_def source_order_def)
  show "sublist [header_line s, replicate (length s) (CHR ''-''), ''  '' @ empty_state_msg s]
           (fst (format_lines dt d))"
    using sublist_format_lines(1)[OF o, of d dt]
    by (simp add: empty_source_events[OF assms] events_text_simps)
  show "sublist [h2_line s, empty_line (empty_state_msg s)] (snd (format_lines dt d))"
    using sublist_format_lines(2)[OF o, of d dt]
    by (simp add: empty_source_events[OF assms] events_html_simps)
qed

lemma aggregate_always_show:
  "map_of (aggregate w) ''SUBSTACK'' = Some [(''AI Writers'', fetch_substacks w substack_accounts 24)]"
  "map_of (aggregate w) ''PODCASTS'' = Some [(''New Episodes'', fetch_podcasts w podcast_feeds 48)]"
  by (simp_all add: aggregate_def Let_def map_of_dict_set)

subsection \<open>The formats of the lines and their order\<close>

lemma html_literals:
  "h2_line s = ''<h2 style=\"color: #1a1a1a; margin-top: 30px; font-size: 18px; text-transform: uppercase; letter-spacing: 1px;\">'' @ s @ ''</h2>''"
  "empty_line m = ''<p style=\"color: #888; font-style: italic; margin-left: 15px;\">'' @ m @ ''</p>''"
  "h3_line n = ''<h3 style=\"color: #555; font-size: 14px; margin: 15px 0 10px 0;\">'' @ n @ ''</h3>''"
  "a_line u t = ''<a href=\"'' @ u @ ''\" style=\"color: #0066cc; text-decoration: none; font-weight: bold;\">'' @ t @ ''</a>''"
  "strong_line t = ''<strong>'' @ t @ ''</strong>''"
  by (simp_all add: h2_line_def h2_open_def empty_line_def h3_line_def h3_open_def a_line_def
      strong_line_def)

lemma text_literals:
  "header_line s = CHR 0x0A # s"
  "section_line n = CHR 0x0A # ''  '' @ n @ '':''"
  "bullet_line t = ''  - '' @ t"
  by (simp_all add: header_line_def section_line_def bullet_line_def)

lemma line_funs:
  "header_line = (\<lambda>s. CHR 0x0A # s)"
  "h2_line = (\<lambda>s. ''<h2 style=\"color: #1a1a1a; margin-top: 30px; font-size: 18px; text-transform: uppercase; letter-spacing: 1px;\">'' @ s @ ''</h2>'')"
  "section_line = (\<lambda>n. CHR 0x0A # ''  '' @ n @ '':'')"
  "h3_line = (\<lambda>n. ''<h3 style=\"color: #555; font-size: 14px; margin: 15px 0 10px 0;\">'' @ n @ ''</h3>'')"
  "title_line = (\<lambda>hl. if url hl \<noteq> []
               then ''<a href=\"'' @ url hl @ ''\" style=\"color: #0066cc; text-decoration: none; font-weight: bold;\">'' @ title hl @ ''</a>''
               else ''<strong>'' @ title hl @ ''</strong>'')"
  by (rule ext, simp add: text_literals html_literals title_line_def)+

lemma occur_in_order_left: "occur_in_order ps s \<Longrightarrow> occur_in_order ps (x @ s)"
proof (cases ps)
  case Nil
  then show ?thesis by simp
next
  case (Cons p ps')
  assume "occur_in_order ps s"
  with Cons obtain a b where "s = a @ p @ b" and "occur_in_order ps' b" by auto
  then have "x @ s = (x @ a) @ p @ b \<and> occur_in_order ps' b" by simp
  then show ?thesis unfolding Cons occur_in_order.simps by blast
qed

lemma join_append_right:
  "ys \<noteq> [] \<Longrightarrow> \<exists>x. join sep (xs @ ys) = x @ join sep ys"
  by (cases "xs = []") (auto simp: join_append)

lemma occur_in_order_blocks:
  assumes "\<And>s. s \<in> set srcs \<Longrightarrow> P s \<Longrightarrow> K s \<noteq> [] \<and> (\<exists>rest. B s = K s @ rest)"
    and "\<And>s. s \<in> set srcs \<Longrightarrow> \<not> P s \<Longrightarrow> B s = []"
    and "T \<noteq> []"
  shows "occur_in_order (map (\<lambda>s. join sep (K s)) (filter P srcs))
           (join sep (concat (map B srcs) @ T))"
  using assms(1,2)
proof (induction srcs)
  case Nil
  then show ?case by simp
next
  case (Cons s srcs)
  let ?X = "concat (map B srcs) @ T"
  have X: "?X \<noteq> []" using assms(3) by simp
  have IH: "occur_in_order (map (\<lambda>s. join sep (K s)) (filter P srcs)) (join sep ?X)"
    using Cons by simp
  show ?case
  proof (cases "P s")
    case False
    then have "B s = []" using Cons.prems(2) by simp
    with False IH show ?thesis by simp
  next
    case True
    then obtain rest where K: "K s \<noteq> []" and B: "B s = K s @ rest"
      using Cons.prems(1)[of s] by auto
    obtain x where x: "join sep (rest @ ?X) = x @ join sep ?X"
      using join_append_right[OF X] by blast
    have "join sep (concat (map B (s # srcs)) @ T) = join sep (K s @ (rest @ ?X))"
      by (simp add: B)
    also have "\<dots> = join sep (K s) @ sep @ join sep (rest @ ?X)"
      using K X by (simp add: join_append)
    also have "\<dots> = [] @ join sep (K s) @ ((sep @ x) @ join sep ?X)"
      by (simp add: x)
    finally have "join sep (concat (map B (s # srcs)) @ T)
                    = [] @ join sep (K s) @ ((sep @ x) @ join sep ?X)" .
    moreover have "occur_in_order (map (\<lambda>s. join sep (K s)) (filter P srcs))
                     ((sep @ x) @ join sep ?X)"
      using IH by (rule occur_in_order_left)
    ultimately show ?thesis using True by (simp del: append_assoc) blast
  qed
qed

lemma events_concat:
  "events_text (concat xss) = concat (map events_text xss)"
  "events_html (concat xss) = concat (map events_html xss)"
  by (induction xss) (simp_all add: events_text_simps events_html_simps)

lemma shown_source_events:
  "shown d s \<Longrightarrow> \<exists>more. source_events d s = SourceHeader s # more"
  by (cases "map_of d s") (auto simp: source_events_def shown_def)

lemma not_shown_source_events: "\<not> shown d s \<Longrightarrow> source_events d s = []"
  by (cases "map_of d s") (auto simp: source_events_def)

lemma text_headers_in_order:
  "occur_in_order
     (map (\<lambda>s. join [CHR 0x0A] [header_line s, replicate (length s) (CHR ''-'')])
          (filter (shown d) source_order))
     (fst (format_email_body w d))"
proof -
  have "occur_in_order
     (map (\<lambda>s. join [CHR 0x0A] [header_line s, replicate (length s) (CHR ''-'')])
          (filter (shown d) source_order))
     (join [CHR 0x0A] (concat (map (\<lambda>s. events_text (source_events d s)) source_order) @ text_foot))"
  proof (rule occur_in_order_blocks)
    fix s assume "shown d s"
    then obtain more where "source_events d s = SourceHeader s # more"
      using shown_source_events by blast
    then show "[header_line s, replicate (length s) (CHR ''-'')] \<noteq> []
       \<and> (\<exists>rest. events_text (source_events d s)
                    = [header_line s, replicate (length s) (CHR ''-'')] @ rest)"
      by (simp add: events_text_simps)
  next
    fix s assume "\<not> shown d s"
    then show "events_text (source_events d s) = []"
      by (simp add: not_shown_source_events events_text_simps)
  next
    show "text_foot \<noteq> []" by (simp add: text_foot_def)
  qed
  moreover have "events_text (traversal d)
                   = concat (map (\<lambda>s. events_text (source_events d s)) source_order)"
    by (simp add: traversal_def events_concat comp_def)
  moreover have "\<exists>x. fst (format_email_body w d)
                   = x @ join [CHR 0x0A] (events_text (traversal d) @ text_foot)"
    unfolding format_email_body_lines format_lines_traversal fst_conv
    by (rule join_append_right) (simp add: text_foot_def)
  ultimately show ?thesis using occur_in_order_left by force
qed

lemma html_headers_in_order:
  "occur_in_order (map h2_line (filter (shown d) source_order)) (snd (format_email_body w d))"
proof -
  have "occur_in_order
     (map (\<lambda>s. join [CHR 0x0A] [h2_line s]) (filter (shown d) source_order))
     (join [CHR 0x0A] (concat (map (\<lambda>s. events_html (source_events d s)) source_order) @ html_foot))"
  proof (rule occur_in_order_blocks)
    fix s assume "shown d s"
    then obtain more where "source_events d s = SourceHeader s # more"
      using shown_source_events by blast
    then show "[h2_line s] \<noteq> []
       \<and> (\<exists>rest. events_html (source_events d s) = [h2_line s] @ rest)"
      by (simp add: events_html_simps)
  next
    fix s assume "\<not> shown d s"
    then show "events_html (source_events d s) = []"
      by (simp add: not_shown_source_events events_html_simps)
  next
    show "html_foot \<noteq> []" by (simp add: html_foot_def)
  qed
  moreover have "events_html (traversal d)
                   = concat (map (\<lambda>s. events_html (source_events d s)) source_order)"
    by (simp add: traversal_def events_concat comp_def)
  moreover have "\<exists>x. snd (format_email_body w d)
                   = x @ join [CHR 0x0A] (events_html (traversal d) @ html_foot)"
    unfolding format_email_body_lines format_lines_traversal snd_conv
    by (rule join_append_right) (simp add: html_foot_def)
  ultimately show ?thesis using occur_in_order_left by force
qed






lemma render_source_skip:
  assumes "map_of d s = Some secs" and "concat (map snd secs) = []" and "s \<notin> set always_show"
  shows "render_source d s out = out" and "\<not> shown d s"
proof -
  have n: "\<not> has_content secs" using assms(2) by (simp add: no_content_iff)
  show "render_source d s out = out" using assms n by (simp add: render_source_def)
  show "\<not> shown d s" using assms n by (simp add: shown_def)
qed

lemma format_email_body_same_set:
  assumes "distinct (map fst d)" and "distinct (map fst d')" and "set d = set d'"
  shows "format_email_body w d = format_email_body w d'"
proof -
  have "map_of d = map_of d'" using assms by (simp add: map_of_inject_set)
  then show ?thesis by (intro format_email_body_cong) simp
qed

subsection \<open>The renderer: the three claims\<close>

text \<open>
  Claim C6. When the digest maps \<^verbatim>\<open>SUBSTACK\<close> (or \<^verbatim>\<open>PODCASTS\<close>) to sections that hold no
  headline, the text has the source header, its underline and the fixed sentence as three
  successive lines, and the HTML has the header and the paragraph of the sentence as two
  successive lines; so have the two strings returned, which are these lines joined. The
  aggregator always stores both keys, each with its one section, whatever the fetchers
  found.
\<close>

theorem always_show_empty_state:
  "(map_of d ''SUBSTACK'' = Some subs \<and> concat (map snd subs) = [] \<longrightarrow>
      sublist [CHR 0x0A # ''SUBSTACK'', ''--------'', ''  No new posts in the last 24 hours'']
        (fst (format_lines (body_date_str w) d))
      \<and> sublist [''<h2 style=\"color: #1a1a1a; margin-top: 30px; font-size: 18px; text-transform: uppercase; letter-spacing: 1px;\">SUBSTACK</h2>'',
                  ''<p style=\"color: #888; font-style: italic; margin-left: 15px;\">No new posts in the last 24 hours</p>'']
          (snd (format_lines (body_date_str w) d))
      \<and> sublist (CHR 0x0A # ''SUBSTACK'' @ [CHR 0x0A] @ ''--------'' @ [CHR 0x0A]
                   @ ''  No new posts in the last 24 hours'')
          (fst (format_email_body w d))
      \<and> sublist (''<h2 style=\"color: #1a1a1a; margin-top: 30px; font-size: 18px; text-transform: uppercase; letter-spacing: 1px;\">SUBSTACK</h2>''
                   @ [CHR 0x0A]
                   @ ''<p style=\"color: #888; font-style: italic; margin-left: 15px;\">No new posts in the last 24 hours</p>'')
          (snd (format_email_body w d)))
   \<and> (map_of d ''PODCASTS'' = Some pods \<and> concat (map snd pods) = [] \<longrightarrow>
      sublist [CHR 0x0A # ''PODCASTS'', ''--------'', ''  No new episodes in the last 48 hours'']
        (fst (format_lines (body_date_str w) d))
      \<and> sublist [''<h2 style=\"color: #1a1a1a; margin-top: 30px; font-size: 18px; text-transform: uppercase; letter-spacing: 1px;\">PODCASTS</h2>'',
                  ''<p style=\"color: #888; font-style: italic; margin-left: 15px;\">No new episodes in the last 48 hours</p>'']
          (snd (format_lines (body_date_str w) d))
      \<and> sublist (CHR 0x0A # ''PODCASTS'' @ [CHR 0x0A] @ ''--------'' @ [CHR 0x0A]
                   @ ''  No new episodes in the last 48 hours'')
          (fst (format_email_body w d))
      \<and> sublist (''<h2 style=\"color: #1a1a1a; margin-top: 30px; font-size: 18px; text-transform: uppercase; letter-spacing: 1px;\">PODCASTS</h2>''
                   @ [CHR 0x0A]
                   @ ''<p style=\"color: #888; font-style: italic; margin-left: 15px;\">No new episodes in the last 48 hours</p>'')
          (snd (format_email_body w d)))
   \<and> format_email_body w d
       = (join [CHR 0x0A] (fst (format_lines (body_date_str w) d)),
          join [CHR 0x0A] (snd (format_lines (body_date_str w) d)))
   \<and> map_of (aggregate w') ''SUBSTACK''
       = Some [(''AI Writers'', fetch_substacks w' substack_accounts 24)]
   \<and> map_of (aggregate w') ''PODCASTS''
       = Some [(''New Episodes'', fetch_podcasts w' podcast_feeds 48)]"
proof -
  let ?t = "fst (format_lines (body_date_str w) d)"
  let ?h = "snd (format_lines (body_date_str w) d)"
  have body: "fst (format_email_body w d) = join [CHR 0x0A] ?t"
    "snd (format_email_body w d) = join [CHR 0x0A] ?h"
    by (simp_all add: format_email_body_lines)
  have S: "map_of d ''SUBSTACK'' = Some subs \<and> concat (map snd subs) = [] \<longrightarrow>
      sublist [CHR 0x0A # ''SUBSTACK'', ''--------'', ''  No new posts in the last 24 hours''] ?t
      \<and> sublist [''<h2 style=\"color: #1a1a1a; margin-top: 30px; font-size: 18px; text-transform: uppercase; letter-spacing: 1px;\">SUBSTACK</h2>'',
                  ''<p style=\"color: #888; font-style: italic; margin-left: 15px;\">No new posts in the last 24 hours</p>''] ?h
      \<and> sublist (CHR 0x0A # ''SUBSTACK'' @ [CHR 0x0A] @ ''--------'' @ [CHR 0x0A]
                   @ ''  No new posts in the last 24 hours'')
          (fst (format_email_body w d))
      \<and> sublist (''<h2 style=\"color: #1a1a1a; margin-top: 30px; font-size: 18px; text-transform: uppercase; letter-spacing: 1px;\">SUBSTACK</h2>''
                   @ [CHR 0x0A]
                   @ ''<p style=\"color: #888; font-style: italic; margin-left: 15px;\">No new posts in the last 24 hours</p>'')
          (snd (format_email_body w d))"
  proof
    assume a: "map_of d ''SUBSTACK'' = Some subs \<and> concat (map snd subs) = []"
    have m: "''SUBSTACK'' \<in> set always_show" by (simp add: always_show_def)
    have t: "sublist [CHR 0x0A # ''SUBSTACK'', ''--------'', ''  No new posts in the last 24 hours''] ?t"
      using empty_state_lines(1)[OF conjunct1[OF a] conjunct2[OF a] m, of "body_date_str w"]
      by (simp add: header_line_def empty_state_msg_def no_posts_msg_def)
    have h: "sublist [''<h2 style=\"color: #1a1a1a; margin-top: 30px; font-size: 18px; text-transform: uppercase; letter-spacing: 1px;\">SUBSTACK</h2>'',
                  ''<p style=\"color: #888; font-style: italic; margin-left: 15px;\">No new posts in the last 24 hours</p>''] ?h"
      using empty_state_lines(2)[OF conjunct1[OF a] conjunct2[OF a] m, of "body_date_str w"]
      by (simp add: empty_state_msg_def no_posts_msg_def html_literals)
    have jt: "sublist (join [CHR 0x0A] [CHR 0x0A # ''SUBSTACK'', ''--------'',
                      ''  No new posts in the last 24 hours'']) (join [CHR 0x0A] ?t)"
      using t by (rule sublist_join) simp
    have jh: "sublist (join [CHR 0x0A]
                 [''<h2 style=\"color: #1a1a1a; margin-top: 30px; font-size: 18px; text-transform: uppercase; letter-spacing: 1px;\">SUBSTACK</h2>'',
                  ''<p style=\"color: #888; font-style: italic; margin-left: 15px;\">No new posts in the last 24 hours</p>''])
               (join [CHR 0x0A] ?h)"
      using h by (rule sublist_join) simp
    from t h jt jh show "sublist [CHR 0x0A # ''SUBSTACK'', ''--------'', ''  No new posts in the last 24 hours''] ?t
      \<and> sublist [''<h2 style=\"color: #1a1a1a; margin-top: 30px; font-size: 18px; text-transform: uppercase; letter-spacing: 1px;\">SUBSTACK</h2>'',
                  ''<p style=\"color: #888; font-style: italic; margin-left: 15px;\">No new posts in the last 24 hours</p>''] ?h
      \<and> sublist (CHR 0x0A # ''SUBSTACK'' @ [CHR 0x0A] @ ''--------'' @ [CHR 0x0A]
                   @ ''  No new posts in the last 24 hours'')
          (fst (format_email_body w d))
      \<and> sublist (''<h2 style=\"color: #1a1a1a; margin-top: 30px; font-size: 18px; text-transform: uppercase; letter-spacing: 1px;\">SUBSTACK</h2>''
                   @ [CHR 0x0A]
                   @ ''<p style=\"color: #888; font-style: italic; margin-left: 15px;\">No new posts in the last 24 hours</p>'')
          (snd (format_email_body w d))"
      by (simp add: body)
  qed
  have P: "map_of d ''PODCASTS'' = Some pods \<and> concat (map snd pods) = [] \<longrightarrow>
      sublist [CHR 0x0A # ''PODCASTS'', ''--------'', ''  No new episodes in the last 48 hours''] ?t
      \<and> sublist [''<h2 style=\"color: #1a1a1a; margin-top: 30px; font-size: 18px; text-transform: uppercase; letter-spacing: 1px;\">PODCASTS</h2>'',
                  ''<p style=\"color: #888; font-style: italic; margin-left: 15px;\">No new episodes in the last 48 hours</p>''] ?h
      \<and> sublist (CHR 0x0A # ''PODCASTS'' @ [CHR 0x0A] @ ''--------'' @ [CHR 0x0A]
                   @ ''  No new episodes in the last 48 hours'')
          (fst (format_email_body w d))
      \<and> sublist (''<h2 style=\"color: #1a1a1a; margin-top: 30px; font-size: 18px; text-transform: uppercase; letter-spacing: 1px;\">PODCASTS</h2>''
                   @ [CHR 0x0A]
                   @ ''<p style=\"color: #888; font-style: italic; margin-left: 15px;\">No new episodes in the last 48 hours</p>'')
          (snd (format_email_body w d))"
  proof
    assume a: "map_of d ''PODCASTS'' = Some pods \<and> concat (map snd pods) = []"
    have m: "''PODCASTS'' \<in> set always_show" by (simp add: always_show_def)
    have t: "sublist [CHR 0x0A # ''PODCASTS'', ''--------'', ''  No new episodes in the last 48 hours''] ?t"
      using empty_state_lines(1)[OF conjunct1[OF a] conjunct2[OF a] m, of "body_date_str w"]
      by (simp add: header_line_def empty_state_msg_def no_episodes_msg_def)
    have h: "sublist [''<h2 style=\"color: #1a1a1a; margin-top: 30px; font-size: 18px; text-transform: uppercase; letter-spacing: 1px;\">PODCASTS</h2>'',
                  ''<p style=\"color: #888; font-style: italic; margin-left: 15px;\">No new episodes in the last 48 hours</p>''] ?h"
      using empty_state_lines(2)[OF conjunct1[OF a] conjunct2[OF a] m, of "body_date_str w"]
      by (simp add: empty_state_msg_def no_episodes_msg_def html_literals)
    have jt: "sublist (join [CHR 0x0A] [CHR 0x0A # ''PODCASTS'', ''--------'',
                      ''  No new episodes in the last 48 hours'']) (join [CHR 0x0A] ?t)"
      using t by (rule sublist_join) simp
    have jh: "sublist (join [CHR 0x0A]
                 [''<h2 style=\"color: #1a1a1a; margin-top: 30px; font-size: 18px; text-transform: uppercase; letter-spacing: 1px;\">PODCASTS</h2>'',
                  ''<p style=\"color: #888; font-style: italic; margin-left: 15px;\">No new episodes in the last 48 hours</p>''])
               (join [CHR 0x0A] ?h)"
      using h by (rule sublist_join) simp
    from t h jt jh show "sublist [CHR 0x0A # ''PODCASTS'', ''--------'', ''  No new episodes in the last 48 hours''] ?t
      \<and> sublist [''<h2 style=\"color: #1a1a1a; margin-top: 30px; font-size: 18px; text-transform: uppercase; letter-spacing: 1px;\">PODCASTS</h2>'',
                  ''<p style=\"color: #888; font-style: italic; margin-left: 15px;\">No new episodes in the last 48 hours</p>''] ?h
      \<and> sublist (CHR 0x0A # ''PODCASTS'' @ [CHR 0x0A] @ ''--------'' @ [CHR 0x0A]
                   @ ''  No new episodes in the last 48 hours'')
          (fst (format_email_body w d))
      \<and> sublist (''<h2 style=\"color: #1a1a1a; margin-top: 30px; font-size: 18px; text-transform: uppercase; letter-spacing: 1px;\">PODCASTS</h2>''
                   @ [CHR 0x0A]
                   @ ''<p style=\"color: #888; font-style: italic; margin-left: 15px;\">No new episodes in the last 48 hours</p>'')
          (snd (format_email_body w d))"
      by (simp add: body)
  qed
  show ?thesis
    by (intro conjI S P aggregate_always_show format_email_body_lines)
qed

theorem always_show_empty_state_witness:
  "map_of (aggregate quiet_world) ''SUBSTACK'' = Some [(''AI Writers'', [])]
   \<and> map_of (aggregate quiet_world) ''PODCASTS'' = Some [(''New Episodes'', [])]
   \<and> sublist (CHR 0x0A # ''SUBSTACK'' @ [CHR 0x0A] @ ''--------'' @ [CHR 0x0A]
                @ ''  No new posts in the last 24 hours'')
        (fst (format_email_body quiet_world (aggregate quiet_world)))
   \<and> sublist (''<h2 style=\"color: #1a1a1a; margin-top: 30px; font-size: 18px; text-transform: uppercase; letter-spacing: 1px;\">SUBSTACK</h2>''
                @ [CHR 0x0A]
                @ ''<p style=\"color: #888; font-style: italic; margin-left: 15px;\">No new posts in the last 24 hours</p>'')
        (snd (format_email_body quiet_world (aggregate quiet_world)))
   \<and> sublist (''<h2 style=\"color: #1a1a1a; margin-top: 30px; font-size: 18px; text-transform: uppercase; letter-spacing: 1px;\">PODCASTS</h2>''
                @ [CHR 0x0A]
                @ ''<p style=\"color: #888; font-style: italic; margin-left: 15px;\">No new episodes in the last 48 hours</p>'')
        (snd (format_email_body quiet_world (aggregate quiet_world)))"
proof -
  have s: "fetch_substacks quiet_world substack_accounts 24 = []"
    by (simp add: fetch_substacks_def quiet_world_def substack_accounts_def)
  have p: "fetch_podcasts quiet_world podcast_feeds 48 = []"
    by (simp add: fetch_podcasts_def quiet_world_def podcast_feeds_def)
  note T = always_show_empty_state
         [of "aggregate quiet_world" "[(''AI Writers'', [])]" quiet_world
             "[(''New Episodes'', [])]" quiet_world]
  have a1: "map_of (aggregate quiet_world) ''SUBSTACK'' = Some [(''AI Writers'', [])]"
    using T [THEN conjunct2, THEN conjunct2, THEN conjunct2, THEN conjunct1] by (simp add: s)
  have a2: "map_of (aggregate quiet_world) ''PODCASTS'' = Some [(''New Episodes'', [])]"
    using T [THEN conjunct2, THEN conjunct2, THEN conjunct2, THEN conjunct2] by (simp add: p)
  have c1: "sublist (CHR 0x0A # ''SUBSTACK'' @ [CHR 0x0A] @ ''--------'' @ [CHR 0x0A]
                @ ''  No new posts in the last 24 hours'')
        (fst (format_email_body quiet_world (aggregate quiet_world)))"
    using T [THEN conjunct1] a1 by simp
  have c2: "sublist (''<h2 style=\"color: #1a1a1a; margin-top: 30px; font-size: 18px; text-transform: uppercase; letter-spacing: 1px;\">SUBSTACK</h2>''
                @ [CHR 0x0A]
                @ ''<p style=\"color: #888; font-style: italic; margin-left: 15px;\">No new posts in the last 24 hours</p>'')
        (snd (format_email_body quiet_world (aggregate quiet_world)))"
    using T [THEN conjunct1] a1 by simp
  have c3: "sublist (''<h2 style=\"color: #1a1a1a; margin-top: 30px; font-size: 18px; text-transform: uppercase; letter-spacing: 1px;\">PODCASTS</h2>''
                @ [CHR 0x0A]
                @ ''<p style=\"color: #888; font-style: italic; margin-left: 15px;\">No new episodes in the last 48 hours</p>'')
        (snd (format_email_body quiet_world (aggregate quiet_world)))"
    using T [THEN conjunct2, THEN conjunct1] a2 by simp
  show ?thesis by (intro conjI a1 a2 c1 c2 c3)
qed

text \<open>
  Claim C7. The two strings returned are the text lines and the HTML lines joined by
  newlines. The source headers among these lines are those of the shown sources in the
  fixed order, and the headers occur in that order, one after the other, in each string.
  Two digests with the same entries in a different order of insertion render alike. One of
  the four press sources whose sections hold no headline adds nothing, and its header is in
  neither list. The headline lines of both lists are those of the headlines with a title,
  by source in the fixed order, then by section, then in the order of the section's list.
\<close>

theorem fixed_source_order:
  "format_email_body w d
       = (join [CHR 0x0A] (fst (format_lines (body_date_str w) d)),
          join [CHR 0x0A] (snd (format_lines (body_date_str w) d)))
   \<and> filter is_header_line (fst (format_lines dt d))
       = map (\<lambda>s. CHR 0x0A # s)
           (filter (shown d) [''NEW YORK TIMES'', ''LA PRESSE'', ''GLOBE AND MAIL'', ''AXIOS'',
            ''SUBSTACK'', ''PODCASTS''])
   \<and> filter is_h2_line (snd (format_lines dt d))
       = map (\<lambda>s. ''<h2 style=\"color: #1a1a1a; margin-top: 30px; font-size: 18px; text-transform: uppercase; letter-spacing: 1px;\">'' @ s @ ''</h2>'')
           (filter (shown d) [''NEW YORK TIMES'', ''LA PRESSE'', ''GLOBE AND MAIL'', ''AXIOS'',
            ''SUBSTACK'', ''PODCASTS''])
   \<and> occur_in_order
       (map (\<lambda>s. CHR 0x0A # s @ [CHR 0x0A] @ replicate (length s) (CHR ''-''))
          (filter (shown d) [''NEW YORK TIMES'', ''LA PRESSE'', ''GLOBE AND MAIL'', ''AXIOS'',
            ''SUBSTACK'', ''PODCASTS'']))
       (fst (format_email_body w d))
   \<and> occur_in_order
       (map (\<lambda>s. ''<h2 style=\"color: #1a1a1a; margin-top: 30px; font-size: 18px; text-transform: uppercase; letter-spacing: 1px;\">'' @ s @ ''</h2>'')
          (filter (shown d) [''NEW YORK TIMES'', ''LA PRESSE'', ''GLOBE AND MAIL'', ''AXIOS'',
            ''SUBSTACK'', ''PODCASTS'']))
       (snd (format_email_body w d))
   \<and> (distinct (map fst d) \<and> distinct (map fst d') \<and> set d = set d'
        \<longrightarrow> format_email_body w d = format_email_body w d')
   \<and> (s \<in> set [''NEW YORK TIMES'', ''LA PRESSE'', ''GLOBE AND MAIL'', ''AXIOS'']
        \<and> map_of d s = Some secs \<and> concat (map snd secs) = []
        \<longrightarrow> CHR 0x0A # s \<notin> set (fst (format_lines dt d))
            \<and> ''<h2 style=\"color: #1a1a1a; margin-top: 30px; font-size: 18px; text-transform: uppercase; letter-spacing: 1px;\">'' @ s @ ''</h2>'' \<notin> set (snd (format_lines dt d))
            \<and> render_source d s out = out)
   \<and> filter is_bullet_line (fst (format_lines dt d))
       = map (\<lambda>hl. ''  - '' @ title hl) (rendered_headlines d)
   \<and> filter is_title_line (snd (format_lines dt d))
       = map (\<lambda>hl. if url hl \<noteq> []
               then ''<a href=\"'' @ url hl @ ''\" style=\"color: #0066cc; text-decoration: none; font-weight: bold;\">'' @ title hl @ ''</a>''
               else ''<strong>'' @ title hl @ ''</strong>'')
           (rendered_headlines d)"
proof -
  have body: "format_email_body w d
       = (join [CHR 0x0A] (fst (format_lines (body_date_str w) d)),
          join [CHR 0x0A] (snd (format_lines (body_date_str w) d)))"
    by (rule format_email_body_lines)
  have th: "filter is_header_line (fst (format_lines dt d))
       = map (\<lambda>s. CHR 0x0A # s)
           (filter (shown d) [''NEW YORK TIMES'', ''LA PRESSE'', ''GLOBE AND MAIL'', ''AXIOS'',
            ''SUBSTACK'', ''PODCASTS''])"
    using text_headers[of dt d] by (simp only: source_order_def line_funs)
  have hh: "filter is_h2_line (snd (format_lines dt d))
       = map (\<lambda>s. ''<h2 style=\"color: #1a1a1a; margin-top: 30px; font-size: 18px; text-transform: uppercase; letter-spacing: 1px;\">'' @ s @ ''</h2>'')
           (filter (shown d) [''NEW YORK TIMES'', ''LA PRESSE'', ''GLOBE AND MAIL'', ''AXIOS'',
            ''SUBSTACK'', ''PODCASTS''])"
    using html_headers[of dt d] by (simp only: source_order_def line_funs)
  have so: "occur_in_order
       (map (\<lambda>s. CHR 0x0A # s @ [CHR 0x0A] @ replicate (length s) (CHR ''-''))
          (filter (shown d) [''NEW YORK TIMES'', ''LA PRESSE'', ''GLOBE AND MAIL'', ''AXIOS'',
            ''SUBSTACK'', ''PODCASTS'']))
       (fst (format_email_body w d))"
    using text_headers_in_order[of d w] by (simp add: source_order_def header_line_def)
  have sh: "occur_in_order
       (map (\<lambda>s. ''<h2 style=\"color: #1a1a1a; margin-top: 30px; font-size: 18px; text-transform: uppercase; letter-spacing: 1px;\">'' @ s @ ''</h2>'')
          (filter (shown d) [''NEW YORK TIMES'', ''LA PRESSE'', ''GLOBE AND MAIL'', ''AXIOS'',
            ''SUBSTACK'', ''PODCASTS'']))
       (snd (format_email_body w d))"
    using html_headers_in_order[of d w] by (simp only: source_order_def line_funs)
  have perm: "(distinct (map fst d) \<and> distinct (map fst d') \<and> set d = set d'
        \<longrightarrow> format_email_body w d = format_email_body w d')"
    using format_email_body_same_set by blast
  have skip: "(s \<in> set [''NEW YORK TIMES'', ''LA PRESSE'', ''GLOBE AND MAIL'', ''AXIOS'']
        \<and> map_of d s = Some secs \<and> concat (map snd secs) = []
        \<longrightarrow> CHR 0x0A # s \<notin> set (fst (format_lines dt d))
            \<and> ''<h2 style=\"color: #1a1a1a; margin-top: 30px; font-size: 18px; text-transform: uppercase; letter-spacing: 1px;\">'' @ s @ ''</h2>'' \<notin> set (snd (format_lines dt d))
            \<and> render_source d s out = out)"
  proof
    assume a: "s \<in> set [''NEW YORK TIMES'', ''LA PRESSE'', ''GLOBE AND MAIL'', ''AXIOS'']
        \<and> map_of d s = Some secs \<and> concat (map snd secs) = []"
    then have o: "s \<in> set source_order" and n: "s \<notin> set always_show"
      by (auto simp: source_order_def always_show_def)
    from a n have r: "render_source d s out = out" and ns: "\<not> shown d s"
      using render_source_skip by blast+
    have "header_line s \<notin> set (fst (format_lines dt d))" "h2_line s \<notin> set (snd (format_lines dt d))"
      using o ns by (simp_all add: text_header_shown html_header_shown)
    then show "CHR 0x0A # s \<notin> set (fst (format_lines dt d))
            \<and> ''<h2 style=\"color: #1a1a1a; margin-top: 30px; font-size: 18px; text-transform: uppercase; letter-spacing: 1px;\">'' @ s @ ''</h2>'' \<notin> set (snd (format_lines dt d))
            \<and> render_source d s out = out"
      using r by (simp only: text_literals html_literals) simp
  qed
  have tb: "filter is_bullet_line (fst (format_lines dt d))
       = map (\<lambda>hl. ''  - '' @ title hl) (rendered_headlines d)"
    using text_bullets[of dt d] by (simp only: text_literals)
  have ht: "filter is_title_line (snd (format_lines dt d))
       = map (\<lambda>hl. if url hl \<noteq> []
               then ''<a href=\"'' @ url hl @ ''\" style=\"color: #0066cc; text-decoration: none; font-weight: bold;\">'' @ title hl @ ''</a>''
               else ''<strong>'' @ title hl @ ''</strong>'')
           (rendered_headlines d)"
    using html_titles[of dt d] by (simp only: line_funs)
  show ?thesis
    by (intro conjI body th hh so sh perm skip tb ht)
qed

theorem fixed_source_order_witness:
  "distinct (map fst demo_digest) \<and> distinct (map fst demo_digest_shuffled)
   \<and> set demo_digest = set demo_digest_shuffled
   \<and> demo_digest \<noteq> demo_digest_shuffled
   \<and> format_email_body quiet_world demo_digest = format_email_body quiet_world demo_digest_shuffled
   \<and> filter is_header_line (fst (format_lines ''Monday, January 01, 2024'' demo_digest))
       = [CHR 0x0A # ''AXIOS'', CHR 0x0A # ''SUBSTACK'', CHR 0x0A # ''PODCASTS'']
   \<and> map_of demo_digest ''GLOBE AND MAIL'' = Some [(''Canada'', []), (''Politics'', [])]
   \<and> CHR 0x0A # ''GLOBE AND MAIL'' \<notin> set (fst (format_lines ''Monday, January 01, 2024'' demo_digest))
   \<and> filter is_bullet_line (fst (format_lines ''Monday, January 01, 2024'' demo_digest))
       = [''  - Rates hold'', ''  - Storm'']
   \<and> filter is_title_line (snd (format_lines ''Monday, January 01, 2024'' demo_digest))
       = [''<a href=\"https://example.com/r\" style=\"color: #0066cc; text-decoration: none; font-weight: bold;\">Rates hold</a>'', ''<strong>Storm</strong>'']"
proof -
  have s: "filter (shown demo_digest) [''NEW YORK TIMES'', ''LA PRESSE'', ''GLOBE AND MAIL'',
             ''AXIOS'', ''SUBSTACK'', ''PODCASTS''] = [''AXIOS'', ''SUBSTACK'', ''PODCASTS'']"
    by (simp add: shown_def demo_digest_def has_content_def always_show_def)
  have g: "map_of demo_digest ''GLOBE AND MAIL'' = Some [(''Canada'', []), (''Politics'', [])]"
    by (simp add: demo_digest_def)
  have r: "rendered_headlines demo_digest
             = [\<lparr>title = ''Rates hold'', url = ''https://example.com/r'', summary = ''The bank waits.''\<rparr>,
                \<lparr>title = ''Storm'', url = [], summary = []\<rparr>]"
    by (simp add: rendered_headlines_def demo_digest_def source_order_def)
  have k1: "distinct (map fst demo_digest)" and k2: "distinct (map fst demo_digest_shuffled)"
    by (simp_all add: demo_digest_def demo_digest_shuffled_def)
  have e: "set demo_digest = set demo_digest_shuffled"
    by (simp add: demo_digest_def demo_digest_shuffled_def insert_commute)
  have n: "demo_digest \<noteq> demo_digest_shuffled"
    by (simp add: demo_digest_def demo_digest_shuffled_def)
  note T = fixed_source_order
         [of quiet_world demo_digest "''Monday, January 01, 2024''" demo_digest_shuffled
             "''GLOBE AND MAIL''" "[(''Canada'', []), (''Politics'', [])]" "([], [])"]
  have p: "format_email_body quiet_world demo_digest
             = format_email_body quiet_world demo_digest_shuffled"
    using T [THEN conjunct2, THEN conjunct2, THEN conjunct2, THEN conjunct2, THEN conjunct2, THEN conjunct1] k1 k2 e by blast
  have h: "filter is_header_line (fst (format_lines ''Monday, January 01, 2024'' demo_digest))
       = [CHR 0x0A # ''AXIOS'', CHR 0x0A # ''SUBSTACK'', CHR 0x0A # ''PODCASTS'']"
    using T [THEN conjunct2, THEN conjunct1] unfolding s by simp
  have sk: "CHR 0x0A # ''GLOBE AND MAIL'' \<notin> set (fst (format_lines ''Monday, January 01, 2024'' demo_digest))"
    using T [THEN conjunct2, THEN conjunct2, THEN conjunct2, THEN conjunct2, THEN conjunct2, THEN conjunct2, THEN conjunct1] g by simp
  have b: "filter is_bullet_line (fst (format_lines ''Monday, January 01, 2024'' demo_digest))
       = [''  - Rates hold'', ''  - Storm'']"
    using T [THEN conjunct2, THEN conjunct2, THEN conjunct2, THEN conjunct2, THEN conjunct2, THEN conjunct2, THEN conjunct2, THEN conjunct1] unfolding r by simp
  have t: "filter is_title_line (snd (format_lines ''Monday, January 01, 2024'' demo_digest))
       = [''<a href=\"https://example.com/r\" style=\"color: #0066cc; text-decoration: none; font-weight: bold;\">Rates hold</a>'', ''<strong>Storm</strong>'']"
    using T [THEN conjunct2, THEN conjunct2, THEN conjunct2, THEN conjunct2, THEN conjunct2, THEN conjunct2, THEN conjunct2, THEN conjunct2] unfolding r by simp
  show ?thesis by (intro conjI k1 k2 e n p h g sk b t)
qed



subsection \<open>The recency filter\<close>

lemma parse_date_chain:
  "parse_date w e =
     (case published_parsed e of
        Some p \<Rightarrow> to_datetime p
      | None \<Rightarrow>
         (case updated_parsed e of
            Some u \<Rightarrow> to_datetime u
          | None \<Rightarrow>
             (if get_or_empty (published e) = [] then None
              else (case parsedate_tz w (get_or_empty (published e)) of
                      None \<Rightarrow> None
                    | Some p \<Rightarrow> to_datetime p))))"
  by (simp add: parse_date_def try_except_def to_datetime_def split: option.splits sum.splits)

lemma substack_entry_kept:
  "substack_entry w u c e \<noteq> None
     \<longleftrightarrow> (\<exists>t. parse_date w e = Some t \<and> c < t) \<and> strip (get_or_empty (entry_title e)) \<noteq> []"
  by (cases "parse_date w e") (simp_all add: substack_entry_def Let_def)

lemma podcast_entry_kept:
  "podcast_entry w n c e \<noteq> None
     \<longleftrightarrow> (\<exists>t. parse_date w e = Some t \<and> c < t) \<and> strip (get_or_empty (entry_title e)) \<noteq> []"
  by (cases "parse_date w e") (simp_all add: podcast_entry_def Let_def)

lemma append_kept_map_filter: "append_kept f es acc = acc @ List.map_filter f es"
  unfolding append_kept_def
  by (induction es arbitrary: acc) (simp_all add: map_filter_simps split: option.splits)

lemma fold_append_concat:
  "(\<And>x acc. f x acc = acc @ g x) \<Longrightarrow> fold f xs acc = acc @ concat (map g xs)"
  by (induction xs arbitrary: acc) simp_all

lemma fetch_substacks_filter:
  "fetch_substacks w usernames hours =
     concat (map (\<lambda>username.
                    case feedparser_parse w (''https://'' @ username @ ''.substack.com/feed'') of
                      Inl x \<Rightarrow> []
                    | Inr fd \<Rightarrow>
                        List.map_filter
                          (substack_entry w username (substacks_now w - timedelta_hours hours))
                          (entries fd))
                 usernames)"
  unfolding fetch_substacks_def Let_def
  by (subst fold_append_concat[where g = "\<lambda>username.
                    case feedparser_parse w (''https://'' @ username @ ''.substack.com/feed'') of
                      Inl x \<Rightarrow> []
                    | Inr fd \<Rightarrow>
                        List.map_filter
                          (substack_entry w username (substacks_now w - timedelta_hours hours))
                          (entries fd)"])
     (simp_all add: append_kept_map_filter map_filter_simps split: sum.splits)

lemma fetch_podcasts_filter:
  "fetch_podcasts w feeds hours =
     concat (map (\<lambda>(podcast_name, feed_url).
                    case feedparser_parse w feed_url of
                      Inl x \<Rightarrow> []
                    | Inr fd \<Rightarrow>
                        List.map_filter
                          (podcast_entry w podcast_name (podcasts_now w - timedelta_hours hours))
                          (entries fd))
                 feeds)"
  unfolding fetch_podcasts_def Let_def
  by (subst fold_append_concat[where g = "\<lambda>(podcast_name, feed_url).
                    case feedparser_parse w feed_url of
                      Inl x \<Rightarrow> []
                    | Inr fd \<Rightarrow>
                        List.map_filter
                          (podcast_entry w podcast_name (podcasts_now w - timedelta_hours hours))
                          (entries fd)"])
     (simp_all add: append_kept_map_filter map_filter_simps split: sum.splits prod.splits)

lemma datetime_noon: "datetime noon = Inr 63839707200000000"
  by (simp add: datetime_def noon_def days_in_month_def days_before_year_def
      days_before_month_def is_leap_def)

text \<open>
  Claim C4, as the code has it. An entry is kept by \<^verbatim>\<open>fetch_substacks\<close> or \<^verbatim>\<open>fetch_podcasts\<close>
  exactly when \<open>parse_date\<close> gives a timestamp strictly after the cutoff and the title,
  trimmed of whitespace, is not empty. A timestamp equal to the cutoff, or none, excludes
  the entry. \<open>parse_date\<close> takes the structured publish time if present, else the
  structured update time if present, else the parse of the textual date; the one it takes
  gives no timestamp when it does not convert. Each fetcher returns, feed by feed and in
  the order of the feed, the entries kept against the cutoff, now minus the window.
\<close>

theorem recency_filter:
  "(substack_entry w u c e \<noteq> None
      \<longleftrightarrow> (\<exists>t. parse_date w e = Some t \<and> c < t) \<and> strip (get_or_empty (entry_title e)) \<noteq> [])
   \<and> (podcast_entry w n c e \<noteq> None
      \<longleftrightarrow> (\<exists>t. parse_date w e = Some t \<and> c < t) \<and> strip (get_or_empty (entry_title e)) \<noteq> [])
   \<and> (parse_date w e = Some c \<longrightarrow> substack_entry w u c e = None \<and> podcast_entry w n c e = None)
   \<and> (parse_date w e = None \<longrightarrow> substack_entry w u c e = None \<and> podcast_entry w n c e = None)
   \<and> parse_date w e =
       (case published_parsed e of
          Some p \<Rightarrow> to_datetime p
        | None \<Rightarrow>
           (case updated_parsed e of
              Some u \<Rightarrow> to_datetime u
            | None \<Rightarrow>
               (if get_or_empty (published e) = [] then None
                else (case parsedate_tz w (get_or_empty (published e)) of
                        None \<Rightarrow> None
                      | Some p \<Rightarrow> to_datetime p))))
   \<and> fetch_substacks w usernames hours =
       concat (map (\<lambda>username.
                      case feedparser_parse w (''https://'' @ username @ ''.substack.com/feed'') of
                        Inl x \<Rightarrow> []
                      | Inr fd \<Rightarrow>
                          List.map_filter
                            (substack_entry w username (substacks_now w - timedelta_hours hours))
                            (entries fd))
                   usernames)
   \<and> fetch_podcasts w feeds hours =
       concat (map (\<lambda>(podcast_name, feed_url).
                      case feedparser_parse w feed_url of
                        Inl x \<Rightarrow> []
                      | Inr fd \<Rightarrow>
                          List.map_filter
                            (podcast_entry w podcast_name (podcasts_now w - timedelta_hours hours))
                            (entries fd))
                   feeds)"
proof -
  have 3: "parse_date w e = Some c \<longrightarrow> substack_entry w u c e = None \<and> podcast_entry w n c e = None"
    by (simp add: substack_entry_def podcast_entry_def)
  have 4: "parse_date w e = None \<longrightarrow> substack_entry w u c e = None \<and> podcast_entry w n c e = None"
    by (simp add: substack_entry_def podcast_entry_def)
  show ?thesis
    by (intro conjI substack_entry_kept podcast_entry_kept 3 4 parse_date_chain
        fetch_substacks_filter fetch_podcasts_filter)
qed

lemma parse_date_recent: "parse_date quiet_world recent_entry = Some 63839707200000000"
  by (simp add: parse_date_chain recent_entry_def no_entry_def to_datetime_def datetime_noon)

lemma parse_date_untitled: "parse_date w untitled_entry = Some 63839707200000000"
  by (simp add: parse_date_chain untitled_entry_def no_entry_def to_datetime_def datetime_noon)

theorem recency_filter_witness:
  "parse_date quiet_world recent_entry = Some 63839707200000000
   \<and> strip (get_or_empty (entry_title recent_entry)) = ''Launch notes''
   \<and> substack_entry quiet_world ''everydayai'' 63839707199999999 recent_entry \<noteq> None
   \<and> substack_entry quiet_world ''everydayai'' 63839707200000000 recent_entry = None"
proof -
  have t: "strip (get_or_empty (entry_title recent_entry)) = ''Launch notes''"
    by (simp add: recent_entry_def no_entry_def get_or_empty_def strip_def is_space_def)
  from recency_filter [of quiet_world "''everydayai''" 63839707199999999 recent_entry]
       recency_filter [of quiet_world "''everydayai''" 63839707200000000 recent_entry]
  show ?thesis by (simp add: parse_date_recent t)
qed

text \<open>
  Claim C4, as stated: a feed fetched 25 hours after the cutoff of its 24-hour window holds
  three entries dated noon, one hour before the fetch. The first has a publish time after
  the cutoff and no title: it is not kept. The second has a title, a publish time that
  \<^verbatim>\<open>datetime\<close> rejects and an update time after the cutoff that parses: \<open>parse_date\<close> gives
  no timestamp and it is not kept. The third is kept.
\<close>

theorem recent_entries_not_kept:
  "substacks_now substack_world - timedelta_hours 24 = 63839624400000000
   \<and> (63839624400000000 :: int) < 63839707200000000
   \<and> parse_date substack_world untitled_entry = Some 63839707200000000
   \<and> substack_entry substack_world ''everydayai'' 63839624400000000 untitled_entry = None
   \<and> strip (get_or_empty (entry_title misdated_entry)) = ''Leap second''
   \<and> published_parsed misdated_entry = Some (noon\<lparr>tm_sec := 60\<rparr>)
   \<and> to_datetime (noon\<lparr>tm_sec := 60\<rparr>) = None
   \<and> updated_parsed misdated_entry = Some noon
   \<and> to_datetime noon = Some 63839707200000000
   \<and> parse_date substack_world misdated_entry = None
   \<and> substack_entry substack_world ''everydayai'' 63839624400000000 misdated_entry = None
   \<and> fetch_substacks substack_world [''everydayai''] 24
       = [\<lparr>title = ''@everydayai: Launch notes'', url = ''https://example.com/l'',
           summary = ''Posted Jan 01 at 12:00''\<rparr>]"
proof -
  have c: "substacks_now substack_world - timedelta_hours 24 = 63839624400000000"
    by (simp add: substack_world_def quiet_world_def timedelta_hours_def)
  have t: "strip (get_or_empty (entry_title untitled_entry)) = []"
    by (simp add: untitled_entry_def no_entry_def get_or_empty_def strip_def)
  have u: "substack_entry substack_world ''everydayai'' 63839624400000000 untitled_entry = None"
    by (simp add: substack_entry_def parse_date_untitled t)
  have b: "to_datetime (noon\<lparr>tm_sec := 60\<rparr>) = None"
    by (simp add: to_datetime_def datetime_def noon_def)
  have n: "to_datetime noon = Some 63839707200000000"
    by (simp add: to_datetime_def datetime_noon)
  have mt: "strip (get_or_empty (entry_title misdated_entry)) = ''Leap second''"
    by (simp add: misdated_entry_def no_entry_def get_or_empty_def strip_def is_space_def)
  have mp: "published_parsed misdated_entry = Some (noon\<lparr>tm_sec := 60\<rparr>)"
    and mu: "updated_parsed misdated_entry = Some noon"
    by (simp_all add: misdated_entry_def no_entry_def)
  have m: "parse_date substack_world misdated_entry = None"
    by (simp add: parse_date_chain mp b)
  have md: "substack_entry substack_world ''everydayai'' 63839624400000000 misdated_entry = None"
    by (simp add: substack_entry_def m)
  have p: "parse_date substack_world recent_entry = Some 63839707200000000"
    by (simp add: parse_date_chain recent_entry_def no_entry_def n)
  have t': "strip (get_or_empty (entry_title recent_entry)) = ''Launch notes''"
    by (simp add: recent_entry_def no_entry_def get_or_empty_def strip_def is_space_def)
  have l: "strip (get_or_empty (entry_link recent_entry)) = ''https://example.com/l''"
    by (simp add: recent_entry_def no_entry_def get_or_empty_def strip_def is_space_def)
  have s: "strftime substack_world ''%b %d at %H:%M'' 63839707200000000 = ''Jan 01 at 12:00''"
    by (simp add: substack_world_def quiet_world_def strftime_noon_def)
  have r: "substack_entry substack_world ''everydayai'' 63839624400000000 recent_entry
             = Some \<lparr>title = ''@everydayai: Launch notes'', url = ''https://example.com/l'',
                     summary = ''Posted Jan 01 at 12:00''\<rparr>"
    by (simp add: substack_entry_def p t' l s)
  have f: "feedparser_parse substack_world
             = (\<lambda>u. Inr \<lparr>bozo = False, entries = [untitled_entry, misdated_entry, recent_entry]\<rparr>)"
    by (simp add: substack_world_def quiet_world_def)
  have "fetch_substacks substack_world [''everydayai''] 24
       = [\<lparr>title = ''@everydayai: Launch notes'', url = ''https://example.com/l'',
           summary = ''Posted Jan 01 at 12:00''\<rparr>]"
    by (simp add: fetch_substacks_filter c f map_filter_simps u md r)
  then show ?thesis using c u parse_date_untitled b n mt mp mu m md by simp
qed

subsection \<open>The run\<close>

lemma dict_set_nonempty: "dict_set k v d \<noteq> []"
  by (cases d) (auto simp: dict_set_def)

lemma aggregate_nonempty: "aggregate w \<noteq> []"
  by (simp add: aggregate_def Let_def dict_set_nonempty)

lemma main_exit_status:
  "fst (main w) =
     (case EmailSender w of
        Inl x \<Rightarrow> 1
      | Inr sender \<Rightarrow>
          if fst (send_daily_digest w sender (aggregate w)) then 0 else 1)"
  by (simp add: main_def Let_def aggregate_nonempty split_beta split: sum.splits)

lemma send_daily_digest_attempts:
  "d \<noteq> [] \<Longrightarrow> length (snd (send_daily_digest w sender d)) = 1"
  by (simp add: send_daily_digest_def Let_def split_beta split: sum.splits)

lemma quiet_fetchers:
  "fetch_nytimes quiet_world = []"
  "fetch_globe_and_mail quiet_world = []"
  "fetch_lapresse quiet_world = []"
  "fetch_axios quiet_world = []"
  "fetch_substacks quiet_world substack_accounts 24 = []"
  "fetch_podcasts quiet_world podcast_feeds 48 = []"
proof -
  have p: "\<And>u n. parse_feed quiet_world u n = Inr []"
    by (simp add: parse_feed_def try_except_def quiet_world_def slice_upto_def)
  have s: "\<And>n x acc. fetch_section quiet_world n x acc = acc"
    by (simp add: fetch_section_def p collect_headlines_def split_beta)
  show "fetch_nytimes quiet_world = []"
    by (simp add: fetch_nytimes_def nytimes_feeds_def s)
  show "fetch_globe_and_mail quiet_world = []"
    by (simp add: fetch_globe_and_mail_def globe_feeds_def s)
  show "fetch_lapresse quiet_world = []"
    by (simp add: fetch_lapresse_def lapresse_feeds_def s)
  show "fetch_axios quiet_world = []"
    by (simp add: fetch_axios_def p collect_headlines_def)
  show "fetch_substacks quiet_world substack_accounts 24 = []"
    by (simp add: fetch_substacks_def quiet_world_def substack_accounts_def)
  show "fetch_podcasts quiet_world podcast_feeds 48 = []"
    by (simp add: fetch_podcasts_def quiet_world_def podcast_feeds_def)
qed

text \<open>
  Claim C2. In a run where no fetcher produces a headline, the digest still holds the two
  keys that are always stored, so the test for an empty digest in \<^verbatim>\<open>main\<close> does not fire:
  one message is handed to SMTP and the run returns 0.
\<close>

theorem main_without_headlines_sends:
  "fetch_nytimes quiet_world = [] \<and> fetch_globe_and_mail quiet_world = []
   \<and> fetch_lapresse quiet_world = [] \<and> fetch_axios quiet_world = []
   \<and> fetch_substacks quiet_world substack_accounts 24 = []
   \<and> fetch_podcasts quiet_world podcast_feeds 48 = []
   \<and> aggregate quiet_world
       = [(''SUBSTACK'', [(''AI Writers'', [])]), (''PODCASTS'', [(''New Episodes'', [])])]
   \<and> fst (main quiet_world) = 0
   \<and> length (snd (main quiet_world)) = 1"
proof -
  have a: "aggregate quiet_world
       = [(''SUBSTACK'', [(''AI Writers'', [])]), (''PODCASTS'', [(''New Episodes'', [])])]"
    by (simp add: aggregate_def quiet_fetchers dict_set_def)
  have e: "EmailSender quiet_world
             = Inr \<lparr>gmail_user = ''me@example.com'', gmail_password = ''app-password'',
                    recipient_email = ''me@example.com''\<rparr>"
    by (simp add: EmailSender_def quiet_world_def get_or_empty_def Let_def)
  have s: "smtp_send quiet_world = (\<lambda>m. Inr ())" by (simp add: quiet_world_def)
  have m: "fst (main quiet_world) = 0 \<and> length (snd (main quiet_world)) = 1"
    by (simp add: main_def e Let_def aggregate_nonempty send_daily_digest_def s split_beta)
  show ?thesis using a m by (simp add: quiet_fetchers)
qed

end
